theory Spec2Isabelle
  imports Complex_Main
begin

section \<open>Strings\<close>

text \<open>
  A JavaScript string is a sequence of UTF-16 code units. A code unit is modelled by its
  number, a string by the list of its code units; \<open>js\<close> turns a literal into one.
\<close>

type_synonym jsstring = "nat list"

definition js :: "string \<Rightarrow> jsstring" where
  "js s = map of_char s"

text \<open>
  The characters matched by the regular expression class \<^verbatim>\<open>\s\<close> and removed by
  \<^verbatim>\<open>String.prototype.trim\<close>: the WhiteSpace and LineTerminator code points of ECMAScript
  (TAB, LF, VT, FF, CR, SP, NBSP, U+1680, U+2000..U+200A, U+2028, U+2029, U+202F, U+205F,
  U+3000, U+FEFF).
\<close>

definition is_space :: "nat \<Rightarrow> bool" where
  "is_space c = (c = 9 \<or> c = 10 \<or> c = 11 \<or> c = 12 \<or> c = 13 \<or> c = 32 \<or> c = 160 \<or> c = 5760
     \<or> (8192 \<le> c \<and> c \<le> 8202) \<or> c = 8232 \<or> c = 8233 \<or> c = 8239 \<or> c = 8287
     \<or> c = 12288 \<or> c = 65279)"

definition trim :: "jsstring \<Rightarrow> jsstring" where
  "trim s = rev (dropWhile is_space (rev (dropWhile is_space s)))"

text \<open>
  \<open>find_sub p s\<close> locates the first occurrence of \<open>p\<close> in \<open>s\<close> and returns the text
  before it and the text after it.
\<close>

fun find_sub :: "jsstring \<Rightarrow> jsstring \<Rightarrow> (jsstring \<times> jsstring) option" where
  "find_sub p [] = (if p = [] then Some ([], []) else None)"
| "find_sub p (c # cs) =
     (if take (length p) (c # cs) = p then Some ([], drop (length p) (c # cs))
      else (case find_sub p cs of
              None \<Rightarrow> None
            | Some (before, after) \<Rightarrow> Some (c # before, after)))"

section \<open>Response normalizer (route.ts, lines 78-81)\<close>

text \<open>
  \<^verbatim>\<open>.replace(/```json\s*([\s\S]*?)```/, "$1")\<close>: the first match starts at the first
  \<^verbatim>\<open>```json\<close>; the greedy \<^verbatim>\<open>\s*\<close> takes all the white space that follows, and the lazy group
  ends at the next \<^verbatim>\<open>```\<close>. The match is replaced by the group. With no closing fence behind
  the first \<^verbatim>\<open>```json\<close> there is no match at all (a later \<^verbatim>\<open>```json\<close> would itself close the
  first one), and the string is returned as it is.
\<close>

definition strip_json_fence :: "jsstring \<Rightarrow> jsstring" where
  "strip_json_fence s =
     (case find_sub (js ''```json'') s of
        None \<Rightarrow> s
      | Some (before, rest) \<Rightarrow>
          (case find_sub (js ''```'') (dropWhile is_space rest) of
             None \<Rightarrow> s
           | Some (body, after) \<Rightarrow> before @ body @ after))"

text \<open>\<^verbatim>\<open>.replace(/```([\s\S]*?)```/, "$1")\<close>: the same with a bare opening fence.\<close>

definition strip_fence :: "jsstring \<Rightarrow> jsstring" where
  "strip_fence s =
     (case find_sub (js ''```'') s of
        None \<Rightarrow> s
      | Some (before, rest) \<Rightarrow>
          (case find_sub (js ''```'') rest of
             None \<Rightarrow> s
           | Some (body, after) \<Rightarrow> before @ body @ after))"

definition normalizer :: "jsstring \<Rightarrow> jsstring" where
  "normalizer s = trim (strip_fence (strip_json_fence s))"

section \<open>JavaScript values\<close>

text \<open>
  The values the handler computes with are the values of JSON texts (the request body, the
  parsed model output) and \<open>undefined\<close>, the value of a field that is absent. Numbers are
  exact rationals: rounding to IEEE doubles is outside the model.
\<close>

datatype jsval =
    Undefined
  | Null
  | JBool bool
  | JNum rat
  | JStr jsstring
  | JArr "jsval list"
  | JObj "(jsstring \<times> jsval) list"

text \<open>ToBoolean, as used by \<^verbatim>\<open>!\<close>, \<^verbatim>\<open>||\<close>, \<^verbatim>\<open>&&\<close> and the conditional operator.\<close>

fun truthy :: "jsval \<Rightarrow> bool" where
  "truthy Undefined = False"
| "truthy Null = False"
| "truthy (JBool b) = b"
| "truthy (JNum n) = (n \<noteq> 0)"
| "truthy (JStr s) = (s \<noteq> [])"
| "truthy (JArr xs) = True"
| "truthy (JObj kvs) = True"

fun nullish :: "jsval \<Rightarrow> bool" where
  "nullish Undefined = True"
| "nullish Null = True"
| "nullish v = False"

text \<open>\<^verbatim>\<open>a || b\<close> on values.\<close>

definition js_or :: "jsval \<Rightarrow> jsval \<Rightarrow> jsval" where
  "js_or a b = (if truthy a then a else b)"

text \<open>
  The entries of an object are kept in the order of the text; a repeated key takes its
  last value, as \<^verbatim>\<open>JSON.parse\<close> has it.
\<close>

fun lookup_last :: "(jsstring \<times> jsval) list \<Rightarrow> jsstring \<Rightarrow> jsval" where
  "lookup_last [] k = Undefined"
| "lookup_last ((k', v) # kvs) k =
     (if k' = k \<and> k \<notin> set (map fst kvs) then v else lookup_last kvs k)"

text \<open>
  \<open>get_prop v name\<close> reads a named property of a value that is neither \<open>null\<close> nor
  \<open>undefined\<close>. It looks among the own properties of an object; that is the whole lookup
  for the names the handler reads (\<open>options\<close>, \<open>correct_answer\<close>, \<open>question_text\<close>, \<open>points\<close>,
  \<open>topic\<close>, ...), which no built-in prototype defines.
\<close>

fun get_prop :: "jsval \<Rightarrow> jsstring \<Rightarrow> jsval" where
  "get_prop (JObj kvs) name = lookup_last kvs name"
| "get_prop v name = Undefined"

text \<open>\<^verbatim>\<open>v.name\<close>: a TypeError (\<open>None\<close>) on \<open>null\<close> and \<open>undefined\<close>.\<close>

definition get_member :: "jsval \<Rightarrow> jsstring \<Rightarrow> jsval option" where
  "get_member v name = (if nullish v then None else Some (get_prop v name))"

text \<open>\<^verbatim>\<open>v?.name\<close>: \<open>undefined\<close> on \<open>null\<close> and \<open>undefined\<close>.\<close>

definition opt_member :: "jsval \<Rightarrow> jsstring \<Rightarrow> jsval" where
  "opt_member v name = (if nullish v then Undefined else get_prop v name)"

fun decimal :: "nat \<Rightarrow> jsstring" where
  "decimal n = (if n < 10 then [48 + n] else decimal (n div 10) @ [48 + n mod 10])"

text \<open>
  \<^verbatim>\<open>v[i]\<close> for an array index \<open>i\<close>: a TypeError on \<open>null\<close> and \<open>undefined\<close>, the element
  of an array or \<open>undefined\<close> beyond its end, the property named by the decimal digits of
  \<open>i\<close> of an object, the one-character string of a string.
\<close>

fun index :: "jsval \<Rightarrow> nat \<Rightarrow> jsval option" where
  "index Undefined i = None"
| "index Null i = None"
| "index (JArr xs) i = Some (if i < length xs then xs ! i else Undefined)"
| "index (JObj kvs) i = Some (lookup_last kvs (decimal i))"
| "index (JStr s) i = Some (if i < length s then JStr [s ! i] else Undefined)"
| "index v i = Some Undefined"

fun primitive :: "jsval \<Rightarrow> bool" where
  "primitive (JArr xs) = False"
| "primitive (JObj kvs) = False"
| "primitive v = True"

text \<open>
  \<^verbatim>\<open>xs.includes(v)\<close> compares with SameValueZero: primitives by value, arrays and objects
  by identity. The values compared are distinct nodes of one parsed text, so an array or
  an object is never found.
\<close>

definition array_includes :: "jsval list \<Rightarrow> jsval \<Rightarrow> bool" where
  "array_includes xs v = (primitive v \<and> v \<in> set xs)"

section \<open>JSON.parse\<close>

text \<open>
  \<^verbatim>\<open>JSON.parse\<close> is a built-in of the language; it is modelled after the JSON grammar of
  ECMA-404: a scanner producing tokens, and a stack automaton reading them. \<open>None\<close> is the
  SyntaxError.
\<close>

datatype token =
    TLBrace | TRBrace | TLBracket | TRBracket | TColon | TComma
  | TString jsstring | TNumber rat | TTrue | TFalse | TNull

definition json_ws :: "nat \<Rightarrow> bool" where
  "json_ws c = (c = 32 \<or> c = 9 \<or> c = 10 \<or> c = 13)"

definition is_digit :: "nat \<Rightarrow> bool" where
  "is_digit c = (48 \<le> c \<and> c \<le> 57)"

definition hex_val :: "nat \<Rightarrow> nat option" where
  "hex_val c =
     (if 48 \<le> c \<and> c \<le> 57 then Some (c - 48)
      else if 97 \<le> c \<and> c \<le> 102 then Some (c - 87)
      else if 65 \<le> c \<and> c \<le> 70 then Some (c - 55)
      else None)"

text \<open>The single-character escapes: \<^verbatim>\<open>\" \\ \/ \b \f \n \r \t\<close>.\<close>

definition unescape :: "nat \<Rightarrow> nat option" where
  "unescape e =
     (if e = 34 then Some 34 else if e = 92 then Some 92 else if e = 47 then Some 47
      else if e = 98 then Some 8 else if e = 102 then Some 12 else if e = 110 then Some 10
      else if e = 114 then Some 13 else if e = 116 then Some 9 else None)"

definition push_char :: "nat \<Rightarrow> (jsstring \<times> jsstring) option \<Rightarrow> (jsstring \<times> jsstring) option" where
  "push_char c r = (case r of None \<Rightarrow> None | Some (str, rest) \<Rightarrow> Some (c # str, rest))"

text \<open>
  \<open>lex_string\<close> reads a string literal behind its opening quote and returns its value and
  the text behind the closing quote. Control characters below U+0020 are not allowed.
\<close>

fun lex_string :: "jsstring \<Rightarrow> (jsstring \<times> jsstring) option" where
  "lex_string [] = None"
| "lex_string (c # cs) =
     (if c = 34 then Some ([], cs)
      else if c = 92 then
        (case cs of
           [] \<Rightarrow> None
         | e # es \<Rightarrow>
             (if e = 117 then
                (case es of
                   h1 # h2 # h3 # h4 # es' \<Rightarrow>
                     (case (hex_val h1, hex_val h2, hex_val h3, hex_val h4) of
                        (Some a, Some b, Some c', Some d) \<Rightarrow>
                          push_char (4096 * a + 256 * b + 16 * c' + d) (lex_string es')
                      | _ \<Rightarrow> None)
                 | _ \<Rightarrow> None)
              else (case unescape e of
                      None \<Rightarrow> None
                    | Some u \<Rightarrow> push_char u (lex_string es))))
      else if c < 32 then None
      else push_char c (lex_string cs))"

definition digits_val :: "jsstring \<Rightarrow> nat" where
  "digits_val ds = foldl (\<lambda>a c. 10 * a + (c - 48)) 0 ds"

text \<open>
  A number: \<^verbatim>\<open>-? (0 | [1-9][0-9]*) (. [0-9]+)? ([eE] [+-]? [0-9]+)?\<close>. The three parts are
  read in turn; each returns what it read and the text behind it.
\<close>

definition lex_int :: "jsstring \<Rightarrow> (nat \<times> jsstring) option" where
  "lex_int s =
     (case s of
        [] \<Rightarrow> None
      | c # cs \<Rightarrow>
          (if c = 48 then Some (0, cs)
           else if is_digit c then Some (digits_val (takeWhile is_digit s), dropWhile is_digit s)
           else None))"

definition lex_frac :: "jsstring \<Rightarrow> (rat \<times> jsstring) option" where
  "lex_frac s =
     (case s of
        [] \<Rightarrow> Some (0, s)
      | c # cs \<Rightarrow>
          (if c = 46 then
             (let ds = takeWhile is_digit cs in
              if ds = [] then None
              else Some (of_nat (digits_val ds) / 10 ^ length ds, dropWhile is_digit cs))
           else Some (0, s)))"

definition lex_digits1 :: "jsstring \<Rightarrow> (nat \<times> jsstring) option" where
  "lex_digits1 s =
     (let ds = takeWhile is_digit s in
      if ds = [] then None else Some (digits_val ds, dropWhile is_digit s))"

definition lex_exp :: "jsstring \<Rightarrow> (rat \<times> jsstring) option" where
  "lex_exp s =
     (case s of
        [] \<Rightarrow> Some (1, s)
      | c # cs \<Rightarrow>
          (if c = 101 \<or> c = 69 then
             (case cs of
                [] \<Rightarrow> None
              | d # ds \<Rightarrow>
                  (if d = 45 then
                     (case lex_digits1 ds of
                        None \<Rightarrow> None
                      | Some (n, rest) \<Rightarrow> Some (1 / 10 ^ n, rest))
                   else
                     (case lex_digits1 (if d = 43 then ds else cs) of
                        None \<Rightarrow> None
                      | Some (n, rest) \<Rightarrow> Some (10 ^ n, rest))))
           else Some (1, s)))"

definition lex_unsigned :: "jsstring \<Rightarrow> (rat \<times> jsstring) option" where
  "lex_unsigned s =
     (case lex_int s of
        None \<Rightarrow> None
      | Some (i, s1) \<Rightarrow>
          (case lex_frac s1 of
             None \<Rightarrow> None
           | Some (f, s2) \<Rightarrow>
               (case lex_exp s2 of
                  None \<Rightarrow> None
                | Some (e, s3) \<Rightarrow> Some ((of_nat i + f) * e, s3))))"

definition lex_number :: "jsstring \<Rightarrow> (rat \<times> jsstring) option" where
  "lex_number s =
     (case s of
        [] \<Rightarrow> None
      | c # cs \<Rightarrow>
          (if c = 45 then
             (case lex_unsigned cs of None \<Rightarrow> None | Some (n, rest) \<Rightarrow> Some (- n, rest))
           else lex_unsigned s))"

definition push_token :: "token \<Rightarrow> token list option \<Rightarrow> token list option" where
  "push_token t r = (case r of None \<Rightarrow> None | Some ts \<Rightarrow> Some (t # ts))"

text \<open>The scanner: white space between tokens is skipped, anything else is an error.\<close>

function lex :: "jsstring \<Rightarrow> token list option" where
  "lex [] = Some []"
| "lex (c # cs) =
     (if json_ws c then lex cs
      else if c = 123 then push_token TLBrace (lex cs)
      else if c = 125 then push_token TRBrace (lex cs)
      else if c = 91 then push_token TLBracket (lex cs)
      else if c = 93 then push_token TRBracket (lex cs)
      else if c = 58 then push_token TColon (lex cs)
      else if c = 44 then push_token TComma (lex cs)
      else if c = 34 then
        (case lex_string cs of
           None \<Rightarrow> None
         | Some (str, rest) \<Rightarrow> push_token (TString str) (lex rest))
      else if c = 45 \<or> is_digit c then
        (case lex_number (c # cs) of
           None \<Rightarrow> None
         | Some (n, rest) \<Rightarrow> push_token (TNumber n) (lex rest))
      else if take 4 (c # cs) = js ''true'' then push_token TTrue (lex (drop 3 cs))
      else if take 5 (c # cs) = js ''false'' then push_token TFalse (lex (drop 4 cs))
      else if take 4 (c # cs) = js ''null'' then push_token TNull (lex (drop 3 cs))
      else None)"
  by pat_completeness auto
termination
proof -
  have str: "length rest \<le> length cs" if "lex_string cs = Some (str, rest)" for cs str rest
    using that
    by (induction cs arbitrary: str rest rule: lex_string.induct)
      (fastforce simp: push_char_def split: if_splits list.splits option.splits)+
  have dw: "length (dropWhile is_digit xs) \<le> length xs" for xs
    by (simp add: length_dropWhile_le)
  have int: "length rest < length s" if "lex_int s = Some (i, rest)" for s i rest
    using that dw [of "tl s"]
    by (cases s) (auto simp: lex_int_def split: if_splits)
  have frac: "length rest \<le> length s" if "lex_frac s = Some (f, rest)" for s f rest
    using that dw [of "tl s"]
    by (cases s) (auto simp: lex_frac_def Let_def split: if_splits)
  have dig: "length rest \<le> length s" if "lex_digits1 s = Some (n, rest)" for s n rest
    using that dw [of s] by (auto simp: lex_digits1_def Let_def split: if_splits)
  have exp: "length rest \<le> length s" if "lex_exp s = Some (e, rest)" for s e rest
    using that
    by (cases s) (auto simp: lex_exp_def split: if_splits list.splits option.splits dest!: dig)
  have uns: "length rest < length s" if "lex_unsigned s = Some (n, rest)" for s n rest
    using that
    by (auto simp: lex_unsigned_def split: option.splits dest!: int frac exp)
  have num: "length rest < length s" if "lex_number s = Some (n, rest)" for s n rest
    using that
    by (cases s) (auto simp: lex_number_def split: if_splits option.splits dest!: uns)
  show ?thesis
    by (relation "measure length") (auto dest: str dest!: num)
qed

text \<open>
  The automaton. A frame of the stack is an array or an object under construction (its
  members so far, newest first; for an object possibly a key whose value is being read).
\<close>

datatype frame =
    FArray "jsval list"
  | FObject "(jsstring \<times> jsval) list"
  | FMember "(jsstring \<times> jsval) list" jsstring

datatype pstate =
    WantValue
  | WantValueOrClose
  | WantKeyOrClose
  | WantKey
  | WantColon
  | AfterValue
  | Finished jsval

text \<open>A value is complete: it is the whole text, or it goes into the innermost frame.\<close>

fun complete_value :: "jsval \<Rightarrow> frame list \<Rightarrow> (pstate \<times> frame list) option" where
  "complete_value v [] = Some (Finished v, [])"
| "complete_value v (FArray acc # st) = Some (AfterValue, FArray (v # acc) # st)"
| "complete_value v (FMember kvs k # st) = Some (AfterValue, FObject ((k, v) # kvs) # st)"
| "complete_value v (FObject kvs # st) = None"

fun begin_value :: "token \<Rightarrow> frame list \<Rightarrow> (pstate \<times> frame list) option" where
  "begin_value TLBrace st = Some (WantKeyOrClose, FObject [] # st)"
| "begin_value TLBracket st = Some (WantValueOrClose, FArray [] # st)"
| "begin_value (TString s) st = complete_value (JStr s) st"
| "begin_value (TNumber n) st = complete_value (JNum n) st"
| "begin_value TTrue st = complete_value (JBool True) st"
| "begin_value TFalse st = complete_value (JBool False) st"
| "begin_value TNull st = complete_value Null st"
| "begin_value t st = None"

fun close_array :: "frame list \<Rightarrow> (pstate \<times> frame list) option" where
  "close_array (FArray acc # st) = complete_value (JArr (rev acc)) st"
| "close_array st = None"

fun close_object :: "frame list \<Rightarrow> (pstate \<times> frame list) option" where
  "close_object (FObject kvs # st) = complete_value (JObj (rev kvs)) st"
| "close_object st = None"

fun read_key :: "token \<Rightarrow> frame list \<Rightarrow> (pstate \<times> frame list) option" where
  "read_key (TString k) (FObject kvs # st) = Some (WantColon, FMember kvs k # st)"
| "read_key t st = None"

fun next_member :: "frame list \<Rightarrow> (pstate \<times> frame list) option" where
  "next_member (FArray acc # st) = Some (WantValue, FArray acc # st)"
| "next_member (FObject kvs # st) = Some (WantKey, FObject kvs # st)"
| "next_member st = None"

fun step :: "pstate \<Rightarrow> frame list \<Rightarrow> token \<Rightarrow> (pstate \<times> frame list) option" where
  "step WantValue st t = begin_value t st"
| "step WantValueOrClose st t = (if t = TRBracket then close_array st else begin_value t st)"
| "step WantKeyOrClose st t = (if t = TRBrace then close_object st else read_key t st)"
| "step WantKey st t = read_key t st"
| "step WantColon st t = (if t = TColon then Some (WantValue, st) else None)"
| "step AfterValue st t =
     (if t = TComma then next_member st
      else if t = TRBracket then close_array st
      else if t = TRBrace then close_object st
      else None)"
| "step (Finished v) st t = None"

fun run :: "pstate \<Rightarrow> frame list \<Rightarrow> token list \<Rightarrow> jsval option" where
  "run (Finished v) [] [] = Some v"
| "run q st [] = None"
| "run q st (t # ts) =
     (case step q st t of
        None \<Rightarrow> None
      | Some (q', st') \<Rightarrow> run q' st' ts)"

definition JSON_parse :: "jsstring \<Rightarrow> jsval option" where
  "JSON_parse s = (case lex s of None \<Rightarrow> None | Some ts \<Rightarrow> run WantValue [] ts)"

section \<open>Tolerant structure parser (route.ts, lines 83-111)\<close>

text \<open>
  \<^verbatim>\<open>.replace(/}\s*{/g, "},{")\<close>: every closing brace that is followed, across white space,
  by an opening brace is replaced together with that white space and brace; the scan goes
  on behind the match.
\<close>

function repair :: "jsstring \<Rightarrow> jsstring" where
  "repair [] = []"
| "repair (c # cs) =
     (if c = 125 then
        (case dropWhile is_space cs of
           [] \<Rightarrow> c # repair cs
         | d # ds \<Rightarrow> if d = 123 then js ''},{'' @ repair ds else c # repair cs)
      else c # repair cs)"
  by pat_completeness auto
termination
proof (relation "measure length")
  fix c d :: nat and cs ds :: "nat list"
  assume "dropWhile is_space cs = d # ds"
  then have "length (d # ds) \<le> length cs"
    by (metis length_dropWhile_le)
  then show "(ds, c # cs) \<in> measure length" by simp
qed auto

text \<open>
  \<^verbatim>\<open>.match(/{[^}]+}/g)\<close>: the matches from left to right. A match is an opening brace, at
  least one character other than a closing brace, and the closing brace that ends that
  run; the scan goes on behind a match, and at the next character where there is none.
  No match at all is the empty list (\<open>null\<close> in the source).
\<close>

function extract_objects :: "jsstring \<Rightarrow> jsstring list" where
  "extract_objects [] = []"
| "extract_objects (c # cs) =
     (if c = 123 then
        (case dropWhile (\<lambda>x. x \<noteq> 125) cs of
           [] \<Rightarrow> extract_objects cs
         | d # rest \<Rightarrow>
             if takeWhile (\<lambda>x. x \<noteq> 125) cs = [] then extract_objects cs
             else (c # takeWhile (\<lambda>x. x \<noteq> 125) cs @ [d]) # extract_objects rest)
      else extract_objects cs)"
  by pat_completeness auto
termination
proof (relation "measure length")
  fix c d :: nat and cs rest :: "nat list"
  assume "dropWhile (\<lambda>x. x \<noteq> 125) cs = d # rest"
  then have "length (d # rest) \<le> length cs"
    by (metis length_dropWhile_le)
  then show "(rest, c # cs) \<in> measure length" by simp
qed auto

text \<open>\<^verbatim>\<open>matches.join(",")\<close>.\<close>

fun join :: "jsstring \<Rightarrow> jsstring list \<Rightarrow> jsstring" where
  "join sep [] = []"
| "join sep [x] = x"
| "join sep (x # y # ys) = x @ sep @ join sep (y # ys)"

datatype stage = DirectParse | DelimiterRepair | ObjectExtraction

text \<open>
  The nested \<^verbatim>\<open>try\<close> blocks of lines 84-106. The result is the parsed value
  (\<open>generatedQuestions\<close>), or \<open>None\<close> where the handler answers "failed to parse generated
  questions"; with it comes the record of the stages that were entered, in order.
\<close>

definition parse_generated :: "jsstring \<Rightarrow> stage list \<times> jsval option" where
  "parse_generated generatedOutput =
     (case JSON_parse generatedOutput of
        Some v \<Rightarrow> ([DirectParse], Some v)
      | None \<Rightarrow>
          (case JSON_parse (js ''['' @ repair generatedOutput @ js '']'') of
             Some v \<Rightarrow> ([DirectParse, DelimiterRepair], Some v)
           | None \<Rightarrow>
               (let matches = extract_objects generatedOutput in
                if matches \<noteq> [] then
                  ([DirectParse, DelimiterRepair, ObjectExtraction],
                   JSON_parse (js ''['' @ join (js '','') matches @ js '']''))
                else ([DirectParse, DelimiterRepair, ObjectExtraction], None))))"

text \<open>Lines 109-111: a value that is not an array becomes a one-element array.\<close>

fun as_array :: "jsval \<Rightarrow> jsval list" where
  "as_array (JArr xs) = xs"
| "as_array v = [v]"

definition parse_candidates :: "jsstring \<Rightarrow> jsval list option" where
  "parse_candidates generatedOutput = map_option as_array (snd (parse_generated generatedOutput))"

section \<open>Question validator (route.ts, lines 116-152)\<close>

text \<open>
  The filter predicate \<^verbatim>\<open>Array.isArray(q.options) && q.options.length >= 4\<close>. Reading
  \<open>options\<close> of \<open>null\<close> throws a TypeError: \<open>None\<close>.
\<close>

fun at_least_four :: "jsval \<Rightarrow> bool" where
  "at_least_four (JArr xs) = (4 \<le> length xs)"
| "at_least_four v = False"

definition has_options :: "jsval \<Rightarrow> bool option" where
  "has_options q = map_option at_least_four (get_member q (js ''options''))"

fun filter_questions :: "jsval list \<Rightarrow> jsval list option" where
  "filter_questions [] = Some []"
| "filter_questions (q # qs) =
     (case has_options q of
        None \<Rightarrow> None
      | Some keep \<Rightarrow>
          (case filter_questions qs of
             None \<Rightarrow> None
           | Some rest \<Rightarrow> Some (if keep then q # rest else rest)))"

record question_doc =
  quiz_id :: nat
  question_text :: jsval
  question_type :: string
  options :: "jsval list"
  correct_answer :: jsval
  points :: jsval

definition default_options :: "jsval list" where
  "default_options = [JStr (js ''Option A''), JStr (js ''Option B''), JStr (js ''Option C''),
     JStr (js ''Option D'')]"

text \<open>Line 140.\<close>

fun final_options :: "jsval \<Rightarrow> jsval list" where
  "final_options (JArr xs) = (if 4 \<le> length xs then xs else default_options)"
| "final_options v = default_options"

text \<open>\<^verbatim>\<open>options[0]\<close>.\<close>

fun first_option :: "jsval list \<Rightarrow> jsval" where
  "first_option [] = Undefined"
| "first_option (x # xs) = x"

text \<open>Line 142.\<close>

definition final_answer :: "jsval \<Rightarrow> jsval list \<Rightarrow> jsval" where
  "final_answer answer opts =
     (if truthy answer \<and> array_includes opts answer then answer else first_option opts)"

text \<open>Line 150: \<^verbatim>\<open>questionConfigs[index]?.points || 10\<close>; \<open>None\<close> is the TypeError.\<close>

definition config_points :: "jsval \<Rightarrow> nat \<Rightarrow> jsval option" where
  "config_points questionConfigs i =
     (case index questionConfigs i of
        None \<Rightarrow> None
      | Some config \<Rightarrow> Some (js_or (opt_member config (js ''points'')) (JNum 10)))"

text \<open>The callback of \<^verbatim>\<open>filteredQuestions.map\<close>, lines 138-152.\<close>

definition question_doc_of :: "nat \<Rightarrow> jsval \<Rightarrow> jsval \<Rightarrow> nat \<Rightarrow> question_doc option" where
  "question_doc_of quizId questionConfigs q i =
     (case get_member q (js ''options'') of
        None \<Rightarrow> None
      | Some opts \<Rightarrow>
          (case config_points questionConfigs i of
             None \<Rightarrow> None
           | Some pts \<Rightarrow>
               Some \<lparr> quiz_id = quizId,
                      question_text = get_prop q (js ''question_text''),
                      question_type = ''MCQ'',
                      options = final_options opts,
                      correct_answer = final_answer (get_prop q (js ''correct_answer'')) (final_options opts),
                      points = pts \<rparr>))"

fun question_docs_from :: "nat \<Rightarrow> jsval \<Rightarrow> nat \<Rightarrow> jsval list \<Rightarrow> question_doc list option" where
  "question_docs_from quizId questionConfigs i [] = Some []"
| "question_docs_from quizId questionConfigs i (q # qs) =
     (case question_doc_of quizId questionConfigs q i of
        None \<Rightarrow> None
      | Some d \<Rightarrow>
          (case question_docs_from quizId questionConfigs (Suc i) qs of
             None \<Rightarrow> None
           | Some ds \<Rightarrow> Some (d # ds)))"

definition question_docs :: "nat \<Rightarrow> jsval \<Rightarrow> jsval list \<Rightarrow> question_doc list option" where
  "question_docs quizId questionConfigs filteredQuestions =
     question_docs_from quizId questionConfigs 0 filteredQuestions"

section \<open>The request handler (route.ts, POST)\<close>

text \<open>
  Modelled from the spec: the documents of the three collections and the store. The
  Mongoose models \<open>Quiz\<close>, \<open>Question\<close> and \<open>Session\<close> are not part of the sources; a document
  holds the fields the handler gives it, and the store supports the creation and the
  update of a quiz, the bulk creation of questions and the creation of a session. The
  duration of a quiz is the number of minutes its schema stores, an integer after the
  data model of the specification; \<open>total_points\<close> holds the value assigned to it. Times
  are milliseconds since the epoch, as integers: the arithmetic of line 163 is exact on
  them, and the bounds of \<open>Date\<close> are outside the model.
\<close>

record quiz_doc =
  quiz_oid :: nat
  title :: jsstring
  description :: jsstring
  created_by :: jsval
  duration :: int
  total_points :: jsval

record session_doc =
  session_oid :: nat
  session_quiz_id :: nat
  start_time :: int
  end_time :: int
  is_active :: bool
  join_code :: jsval

record store =
  quizzes :: "quiz_doc list"
  questions :: "question_doc list"
  sessions :: "session_doc list"

datatype db_write =
    SaveQuiz quiz_doc
  | InsertQuestions "question_doc list"
  | SaveSession session_doc

text \<open>
  What the handler takes from outside: the request, the process environment, the
  libraries and services it calls, the clock. A call that throws or rejects is \<open>None\<close>.
  \<^item> \<open>request_json\<close>: the value of \<^verbatim>\<open>await request.json()\<close>;
  \<^item> \<open>to_text\<close>: the conversion of a value to a string in a template literal;
  \<^item> \<open>auth_cookie\<close>: the value of the cookie \<open>authToken\<close>, if there is one;
  \<^item> \<open>jwt_verify\<close>: \<^verbatim>\<open>jwt.verify(token, secret)\<close>;
  \<^item> \<open>chat_completion\<close>: \<^verbatim>\<open>client.chat.completions.create\<close>, from the prompt to the response;
  \<^item> \<open>object_id\<close>: \<^verbatim>\<open>new mongoose.Types.ObjectId(userId)\<close>;
  \<^item> \<open>cast_duration\<close>: the cast of the \<open>Quiz\<close> schema for \<open>duration\<close>, giving what
    \<^verbatim>\<open>newQuiz.duration\<close> reads; a value the schema refuses makes \<^verbatim>\<open>save()\<close> reject;
  \<^item> \<open>store_accepts\<close>: whether the store (validation included) accepts a write;
  \<^item> \<open>plus_other\<close>: the operator \<^verbatim>\<open>+\<close> when an operand is not a number;
  \<^item> \<open>new_quiz_id\<close>, \<open>new_session_id\<close>, \<open>new_join_code\<close>: the identifiers and the join code
    that the models generate; \<open>now\<close>: the clock, in milliseconds.
\<close>

record env =
  request_json :: "jsval option"
  to_text :: "jsval \<Rightarrow> jsstring option"
  auth_cookie :: "jsstring option"
  JWT_SECRET :: "jsstring option"
  jwt_verify :: "jsstring \<Rightarrow> jsstring \<Rightarrow> jsval option"
  GITHUB_TOKEN :: "jsstring option"
  chat_completion :: "jsstring \<Rightarrow> jsval option"
  object_id :: "jsval \<Rightarrow> jsval option"
  cast_duration :: "jsval \<Rightarrow> int option"
  store_accepts :: "db_write \<Rightarrow> bool"
  plus_other :: "jsval \<Rightarrow> jsval \<Rightarrow> jsval option"
  new_quiz_id :: nat
  new_session_id :: nat
  new_join_code :: jsval
  now :: int

datatype body =
    ErrorBody string
  | Created nat nat jsval

type_synonym response = "nat \<times> body"

text \<open>The answer of the outer \<^verbatim>\<open>catch\<close>, lines 182-185.\<close>

definition internal_error :: response where
  "internal_error = (500, ErrorBody ''internal server error'')"

record request_fields =
  topic :: jsval
  numQuestions :: jsval
  duration_field :: jsval
  questionConfigs :: jsval

text \<open>Lines 18-21. Destructuring \<open>null\<close> throws.\<close>

definition read_request :: "env \<Rightarrow> response + request_fields" where
  "read_request e =
     (case request_json e of
        None \<Rightarrow> Inl internal_error
      | Some b \<Rightarrow>
          if nullish b then Inl internal_error
          else if \<not> truthy (get_prop b (js ''topic'')) \<or> \<not> truthy (get_prop b (js ''numQuestions''))
          then Inl (400, ErrorBody ''missing required fields'')
          else Inr \<lparr> topic = get_prop b (js ''topic''),
                     numQuestions = get_prop b (js ''numQuestions''),
                     duration_field = get_prop b (js ''duration''),
                     questionConfigs = get_prop b (js ''questionConfigs'') \<rparr>)"

text \<open>Lines 24-31: the prompt, a template literal over \<open>numQuestions\<close> and \<open>topic\<close>.\<close>

definition prompt_of :: "env \<Rightarrow> request_fields \<Rightarrow> jsstring option" where
  "prompt_of e r =
     (case to_text e (numQuestions r) of
        None \<Rightarrow> None
      | Some n \<Rightarrow>
          (case to_text e (topic r) of
             None \<Rightarrow> None
           | Some t \<Rightarrow>
               Some (js ''Generate '' @ n @ js '' quiz questions on the topic '' @ [34] @ t @ [34]
                 @ js ''.'' @ [10]
                 @ js ''IMPORTANT: All questions must be strictly multiple choice only. Do not generate any short answer questions.''
                 @ [10] @ js ''Each question must include:'' @ [10]
                 @ js ''- '' @ [34] @ js ''question_text'' @ [34] @ [10]
                 @ js ''- '' @ [34] @ js ''options'' @ [34] @ js '' (an array of at least 4 choices)'' @ [10]
                 @ js ''- '' @ [34] @ js ''correct_answer'' @ [34] @ js '' (one of the options)'' @ [10]
                 @ js ''- '' @ [34] @ js ''points'' @ [34]
                 @ js '' (this will be overridden by the provided configuration)'' @ [10]
                 @ js ''Do not include any '' @ [34] @ js ''question_type'' @ [34]
                 @ js '' field or markdown formatting.'')))"

text \<open>Lines 33-50: the user id of the token, or the answer 401.\<close>

definition authenticate :: "env \<Rightarrow> response + jsval" where
  "authenticate e =
     (case auth_cookie e of
        None \<Rightarrow> Inl (401, ErrorBody ''user is not authenticated'')
      | Some token \<Rightarrow>
          if token = [] then Inl (401, ErrorBody ''user is not authenticated'')
          else
            (case JWT_SECRET e of
               None \<Rightarrow> Inl (401, ErrorBody ''invalid or expired token'')
             | Some secret \<Rightarrow>
                 if secret = [] then Inl (401, ErrorBody ''invalid or expired token'')
                 else
                   (case jwt_verify e token secret of
                      None \<Rightarrow> Inl (401, ErrorBody ''invalid or expired token'')
                    | Some decoded \<Rightarrow>
                        (case get_member decoded (js ''id'') of
                           None \<Rightarrow> Inl internal_error
                         | Some userId \<Rightarrow>
                             if \<not> truthy userId
                             then Inl (401, ErrorBody ''could not determine user from token'')
                             else Inr userId))))"

text \<open>Line 73: \<^verbatim>\<open>aiResponse.choices[0]?.message?.content\<close>.\<close>

definition response_content :: "jsval \<Rightarrow> jsval option" where
  "response_content aiResponse =
     (case get_member aiResponse (js ''choices'') of
        None \<Rightarrow> None
      | Some choices \<Rightarrow>
          (case index choices 0 of
             None \<Rightarrow> None
           | Some choice \<Rightarrow> Some (opt_member (opt_member choice (js ''message'')) (js ''content''))))"

text \<open>
  Lines 52-77: the text returned by the model. A content that is truthy and not a string
  has no method \<open>replace\<close>: line 78 throws.
\<close>

definition generate :: "env \<Rightarrow> jsstring \<Rightarrow> response + jsstring" where
  "generate e prompt =
     (case GITHUB_TOKEN e of
        None \<Rightarrow> Inl (500, ErrorBody ''github token not configured'')
      | Some githubToken \<Rightarrow>
          if githubToken = [] then Inl (500, ErrorBody ''github token not configured'')
          else
            (case chat_completion e prompt of
               None \<Rightarrow> Inl internal_error
             | Some aiResponse \<Rightarrow>
                 (case response_content aiResponse of
                    None \<Rightarrow> Inl internal_error
                  | Some content \<Rightarrow>
                      if \<not> truthy content then Inl (500, ErrorBody ''no ai output returned'')
                      else (case content of
                              JStr generatedOutput \<Rightarrow> Inr generatedOutput
                            | _ \<Rightarrow> Inl internal_error))))"

text \<open>Lines 78-124: from the text of the model to the filtered questions.\<close>

definition select_questions :: "jsstring \<Rightarrow> response + jsval list" where
  "select_questions generatedOutput =
     (case parse_candidates (normalizer generatedOutput) of
        None \<Rightarrow> Inl (500, ErrorBody ''failed to parse generated questions'')
      | Some generatedQuestions \<Rightarrow>
          (case filter_questions generatedQuestions of
             None \<Rightarrow> Inl internal_error
           | Some filteredQuestions \<Rightarrow>
               if filteredQuestions = []
               then Inl (500, ErrorBody ''failed to generate valid multiple choice questions'')
               else Inr filteredQuestions))"

text \<open>Lines 128-134: the new quiz document.\<close>

definition new_quiz :: "env \<Rightarrow> request_fields \<Rightarrow> jsval \<Rightarrow> quiz_doc option" where
  "new_quiz e r userId =
     (case to_text e (topic r) of
        None \<Rightarrow> None
      | Some t \<Rightarrow>
          (case object_id e userId of
             None \<Rightarrow> None
           | Some owner \<Rightarrow>
               (case cast_duration e (js_or (duration_field r) (JNum 10)) of
                  None \<Rightarrow> None
                | Some minutes \<Rightarrow>
                    Some \<lparr> quiz_oid = new_quiz_id e,
                           title = js ''ai quiz on '' @ t,
                           description = js ''automatically generated quiz about '' @ t,
                           created_by = owner,
                           duration = minutes,
                           total_points = JNum 0 \<rparr>)))"

text \<open>\<^verbatim>\<open>a + b\<close>.\<close>

fun js_add :: "env \<Rightarrow> jsval \<Rightarrow> jsval \<Rightarrow> jsval option" where
  "js_add e (JNum a) (JNum b) = Some (JNum (a + b))"
| "js_add e a b = plus_other e a b"

text \<open>Line 158: \<^verbatim>\<open>questionDocs.reduce((sum, q) => sum + q.points, 0)\<close>, from the running sum.\<close>

fun sum_points :: "env \<Rightarrow> jsval \<Rightarrow> question_doc list \<Rightarrow> jsval option" where
  "sum_points e acc [] = Some acc"
| "sum_points e acc (q # qs) =
     (case js_add e acc (points q) of
        None \<Rightarrow> None
      | Some acc' \<Rightarrow> sum_points e acc' qs)"

text \<open>Lines 162-169: the session of a quiz.\<close>

definition new_session :: "env \<Rightarrow> quiz_doc \<Rightarrow> session_doc" where
  "new_session e newQuiz =
     \<lparr> session_oid = new_session_id e,
       session_quiz_id = quiz_oid newQuiz,
       start_time = now e,
       end_time = now e + duration newQuiz * 60000,
       is_active = True,
       join_code = new_join_code e \<rparr>"

text \<open>A second \<^verbatim>\<open>save()\<close> of a document replaces the stored one.\<close>

definition replace_quiz :: "quiz_doc \<Rightarrow> quiz_doc list \<Rightarrow> quiz_doc list" where
  "replace_quiz d ds = map (\<lambda>x. if quiz_oid x = quiz_oid d then d else x) ds"

text \<open>Lines 156-181, behind the construction of the question documents.\<close>

definition finalize :: "env \<Rightarrow> quiz_doc \<Rightarrow> question_doc list \<Rightarrow> store \<Rightarrow> response \<times> store" where
  "finalize e newQuiz questionDocs st =
     (if \<not> store_accepts e (InsertQuestions questionDocs) then (internal_error, st)
      else
        (case sum_points e (JNum 0) questionDocs of
           None \<Rightarrow> (internal_error, st\<lparr>questions := questions st @ questionDocs\<rparr>)
         | Some totalQuizPoints \<Rightarrow>
             if \<not> store_accepts e (SaveQuiz (newQuiz\<lparr>total_points := totalQuizPoints\<rparr>))
             then (internal_error, st\<lparr>questions := questions st @ questionDocs\<rparr>)
             else if \<not> store_accepts e (SaveSession (new_session e newQuiz))
             then (internal_error,
                   st\<lparr>questions := questions st @ questionDocs,
                      quizzes := replace_quiz (newQuiz\<lparr>total_points := totalQuizPoints\<rparr>) (quizzes st)\<rparr>)
             else ((201, Created (quiz_oid newQuiz) (new_session_id e) (new_join_code e)),
                   st\<lparr>questions := questions st @ questionDocs,
                      quizzes := replace_quiz (newQuiz\<lparr>total_points := totalQuizPoints\<rparr>) (quizzes st),
                      sessions := sessions st @ [new_session e newQuiz]\<rparr>)))"

text \<open>Lines 128-181.\<close>

definition persist ::
  "env \<Rightarrow> request_fields \<Rightarrow> jsval \<Rightarrow> jsval list \<Rightarrow> store \<Rightarrow> response \<times> store" where
  "persist e r userId filteredQuestions st =
     (case new_quiz e r userId of
        None \<Rightarrow> (internal_error, st)
      | Some newQuiz \<Rightarrow>
          if \<not> store_accepts e (SaveQuiz newQuiz) then (internal_error, st)
          else
            (case question_docs (quiz_oid newQuiz) (questionConfigs r) filteredQuestions of
               None \<Rightarrow> (internal_error, st\<lparr>quizzes := quizzes st @ [newQuiz]\<rparr>)
             | Some questionDocs \<Rightarrow>
                 finalize e newQuiz questionDocs (st\<lparr>quizzes := quizzes st @ [newQuiz]\<rparr>)))"

text \<open>The handler: the answer and the store it leaves.\<close>

definition POST :: "env \<Rightarrow> store \<Rightarrow> response \<times> store" where
  "POST e st =
     (case read_request e of
        Inl answer \<Rightarrow> (answer, st)
      | Inr r \<Rightarrow>
          (case prompt_of e r of
             None \<Rightarrow> (internal_error, st)
           | Some prompt \<Rightarrow>
               (case authenticate e of
                  Inl answer \<Rightarrow> (answer, st)
                | Inr userId \<Rightarrow>
                    (case generate e prompt of
                       Inl answer \<Rightarrow> (answer, st)
                     | Inr generatedOutput \<Rightarrow>
                         (case select_questions generatedOutput of
                            Inl answer \<Rightarrow> (answer, st)
                          | Inr filteredQuestions \<Rightarrow> persist e r userId filteredQuestions st)))))"

section \<open>Predicates of the statements\<close>

text \<open>
  A fenced block is left in a text: an opening fence and, behind it, a closing one (the
  condition under which \<^verbatim>\<open>/```([\s\S]*?)```/\<close> matches).
\<close>

definition fenced :: "jsstring \<Rightarrow> bool" where
  "fenced s =
     (case find_sub (js ''```'') s of
        None \<Rightarrow> False
      | Some (before, rest) \<Rightarrow> find_sub (js ''```'') rest \<noteq> None)"

text \<open>
  Two conditions on the stack of the automaton: its bottom frame is an array; and more,
  that array already holds an element or another frame lies above it.
\<close>

definition inner_frames :: "frame list \<Rightarrow> bool" where
  "inner_frames st = (st \<noteq> [] \<and> (case last st of FArray acc \<Rightarrow> True | _ \<Rightarrow> False))"

definition open_array :: "frame list \<Rightarrow> bool" where
  "open_array st = (inner_frames st \<and> (2 \<le> length st \<or> last st \<noteq> FArray []))"

section \<open>Sample inputs\<close>

text \<open>Two object literals concatenated without a separator, and their repaired form.\<close>

definition concatenated_objects :: jsstring where
  \<open>concatenated_objects = js ''{"question_text":"A","options":["a","b","c","d"],"correct_answer":"a"}{"question_text":"B","options":["e","f","g","h"],"correct_answer":"e"}''\<close>

definition repaired_objects :: jsstring where
  \<open>repaired_objects = js ''[{"question_text":"A","options":["a","b","c","d"],"correct_answer":"a"},{"question_text":"B","options":["e","f","g","h"],"correct_answer":"e"}]''\<close>

definition question_A :: jsval where
  "question_A = JObj [(js ''question_text'', JStr (js ''A'')),
     (js ''options'', JArr [JStr (js ''a''), JStr (js ''b''), JStr (js ''c''), JStr (js ''d'')]),
     (js ''correct_answer'', JStr (js ''a''))]"

definition question_B :: jsval where
  "question_B = JObj [(js ''question_text'', JStr (js ''B'')),
     (js ''options'', JArr [JStr (js ''e''), JStr (js ''f''), JStr (js ''g''), JStr (js ''h'')]),
     (js ''correct_answer'', JStr (js ''e''))]"

text \<open>A text that parses directly, although it holds the pattern of the delimiter repair.\<close>

definition braces_in_string :: jsstring where
  \<open>braces_in_string = js ''[{"a":"} {"}]''\<close>

text \<open>Two objects inside prose: only the object extraction recovers them.\<close>

definition objects_in_prose :: jsstring where
  \<open>objects_in_prose = js ''Here: {"a":1} and {"b":2}''\<close>

text \<open>Two fenced blocks; one fenced block tagged \<open>json\<close>.\<close>

definition two_fences :: jsstring where
  "two_fences = js ''```a``` ```b```''"

definition fenced_array :: jsstring where
  \<open>fenced_array = js ''```json [{"a":1}] ```''\<close>

text \<open>Texts of the model that hold \<open>null\<close>: behind a question; alone in an array.\<close>

definition question_then_null :: jsstring where
  \<open>question_then_null = js ''[{"options":["a","b","c","d"]},null]''\<close>

definition null_in_array :: jsstring where
  "null_in_array = js ''[null]''"

text \<open>
  Candidates and configurations: a candidate whose answer is the empty string, one of its
  options; a candidate whose answer is none of its options; a configuration for the
  first question only; a configuration with negative points; the documents built from
  \<open>question_A\<close> and \<open>outside_answer\<close> under the first configuration.
\<close>

definition empty_answer :: jsval where
  "empty_answer = JObj [(js ''question_text'', JStr (js ''Q'')),
     (js ''options'', JArr [JStr (js ''a''), JStr [], JStr (js ''c''), JStr (js ''d'')]),
     (js ''correct_answer'', JStr [])]"

definition outside_answer :: jsval where
  "outside_answer = JObj [(js ''question_text'', JStr (js ''Q'')),
     (js ''options'', JArr [JStr (js ''a''), JStr (js ''b''), JStr (js ''c''), JStr (js ''d'')]),
     (js ''correct_answer'', JStr (js ''z''))]"

definition five_points :: jsval where
  "five_points = JArr [JObj [(js ''points'', JNum 5)]]"

definition negative_points :: jsval where
  "negative_points = JArr [JObj [(js ''points'', JNum (- 5))]]"

definition sample_docs :: "question_doc list" where
  "sample_docs =
     [\<lparr> quiz_id = 1, question_text = JStr (js ''A''), question_type = ''MCQ'',
        options = [JStr (js ''a''), JStr (js ''b''), JStr (js ''c''), JStr (js ''d'')],
        correct_answer = JStr (js ''a''), points = JNum 5 \<rparr>,
      \<lparr> quiz_id = 1, question_text = JStr (js ''Q''), question_type = ''MCQ'',
        options = [JStr (js ''a''), JStr (js ''b''), JStr (js ''c''), JStr (js ''d'')],
        correct_answer = JStr (js ''a''), points = JNum 10 \<rparr>]"

text \<open>
  An environment in which every collaborator succeeds: the request body and the text of
  the model are given, the token verifies to the user \<open>u1\<close>, strings and natural numbers
  convert to text, the schema stores the integer part of a number as the duration, the
  store accepts every write. Then two request bodies, with and without \<open>questionConfigs\<close>
  (neither has a \<open>duration\<close>), and what a run on \<open>concatenated_objects\<close> creates.
\<close>

definition sample_text :: "jsval \<Rightarrow> jsstring option" where
  "sample_text v =
     (case v of JStr s \<Rightarrow> Some s | JNum n \<Rightarrow> Some (decimal (nat \<lfloor>n\<rfloor>)) | _ \<Rightarrow> None)"

definition sample_cast :: "jsval \<Rightarrow> int option" where
  "sample_cast v = (case v of JNum n \<Rightarrow> Some \<lfloor>n\<rfloor> | _ \<Rightarrow> None)"

definition sample_response :: "jsstring \<Rightarrow> jsval" where
  "sample_response content =
     JObj [(js ''choices'', JArr [JObj [(js ''message'', JObj [(js ''content'', JStr content)])]])]"

definition sample_env :: "jsval \<Rightarrow> jsstring \<Rightarrow> env" where
  "sample_env request_body model_output =
     \<lparr> request_json = Some request_body,
       to_text = sample_text,
       auth_cookie = Some (js ''token''),
       JWT_SECRET = Some (js ''secret''),
       jwt_verify = (\<lambda>token secret. Some (JObj [(js ''id'', JStr (js ''u1''))])),
       GITHUB_TOKEN = Some (js ''key''),
       chat_completion = (\<lambda>prompt. Some (sample_response model_output)),
       object_id = Some,
       cast_duration = sample_cast,
       store_accepts = (\<lambda>w. True),
       plus_other = (\<lambda>a b. None),
       new_quiz_id = 1,
       new_session_id = 2,
       new_join_code = JStr (js ''ABC123''),
       now = 1000 \<rparr>"

definition empty_store :: store where
  "empty_store = \<lparr> quizzes = [], questions = [], sessions = [] \<rparr>"

definition request_with_configs :: jsval where
  "request_with_configs =
     JObj [(js ''topic'', JStr (js ''math'')), (js ''numQuestions'', JNum 2),
           (js ''questionConfigs'', JArr [JObj [(js ''points'', JNum 5)]])]"

definition request_without_configs :: jsval where
  "request_without_configs =
     JObj [(js ''topic'', JStr (js ''math'')), (js ''numQuestions'', JNum 2)]"

definition sample_fields :: request_fields where
  "sample_fields = \<lparr> topic = JStr (js ''math''), numQuestions = JNum 2,
     duration_field = Undefined, questionConfigs = JArr [JObj [(js ''points'', JNum 5)]] \<rparr>"

definition sample_quiz :: quiz_doc where
  "sample_quiz = \<lparr> quiz_oid = 1, title = js ''ai quiz on math'',
     description = js ''automatically generated quiz about math'',
     created_by = JStr (js ''u1''), duration = 10, total_points = JNum 0 \<rparr>"

definition sample_questions :: "question_doc list" where
  "sample_questions =
     [\<lparr> quiz_id = 1, question_text = JStr (js ''A''), question_type = ''MCQ'',
        options = [JStr (js ''a''), JStr (js ''b''), JStr (js ''c''), JStr (js ''d'')],
        correct_answer = JStr (js ''a''), points = JNum 5 \<rparr>,
      \<lparr> quiz_id = 1, question_text = JStr (js ''B''), question_type = ''MCQ'',
        options = [JStr (js ''e''), JStr (js ''f''), JStr (js ''g''), JStr (js ''h'')],
        correct_answer = JStr (js ''e''), points = JNum 10 \<rparr>]"

definition sample_session :: session_doc where
  "sample_session = \<lparr> session_oid = 2, session_quiz_id = 1, start_time = 1000,
     end_time = 601000, is_active = True, join_code = JStr (js ''ABC123'') \<rparr>"

definition sample_result :: store where
  "sample_result = \<lparr> quizzes = [sample_quiz\<lparr>total_points := JNum 15\<rparr>],
     questions = sample_questions, sessions = [sample_session] \<rparr>"

section \<open>Evaluation of the parser on the sample inputs\<close>

lemmas eval_defs = js_def is_space_def json_ws_def is_digit_def push_token_def push_char_def
  JSON_parse_def

lemma concatenated_normal: "normalizer concatenated_objects = concatenated_objects"
  by (simp add: concatenated_objects_def normalizer_def strip_json_fence_def strip_fence_def
      trim_def eval_defs)

lemma concatenated_direct: "JSON_parse concatenated_objects = None"
  by (simp add: concatenated_objects_def eval_defs)

lemma concatenated_repair: "js ''['' @ repair concatenated_objects @ js '']'' = repaired_objects"
  by (simp add: concatenated_objects_def repaired_objects_def eval_defs)

lemma repaired_parse: "JSON_parse repaired_objects = Some (JArr [question_A, question_B])"
  by (simp add: repaired_objects_def question_A_def question_B_def eval_defs)

lemma braces_direct:
  "JSON_parse braces_in_string = Some (JArr [JObj [(js ''a'', JStr (js ''} {''))]])"
  by (simp add: braces_in_string_def eval_defs)

lemma braces_repaired:
  "JSON_parse (js ''['' @ repair braces_in_string @ js '']'')
     = Some (JArr [JArr [JObj [(js ''a'', JStr (js ''},{''))]]])"
  by (simp add: braces_in_string_def eval_defs)

lemma prose_direct: "JSON_parse objects_in_prose = None"
  by (simp add: objects_in_prose_def eval_defs)

lemma prose_repaired: "JSON_parse (js ''['' @ repair objects_in_prose @ js '']'') = None"
  by (simp add: objects_in_prose_def eval_defs)

lemma prose_extract:
  \<open>extract_objects objects_in_prose = [js ''{"a":1}'', js ''{"b":2}'']\<close>
  by (simp add: objects_in_prose_def eval_defs)

lemma prose_joined:
  \<open>JSON_parse (js ''['' @ join (js '','') [js ''{"a":1}'', js ''{"b":2}''] @ js '']'')
     = Some (JArr [JObj [(js ''a'', JNum 1)], JObj [(js ''b'', JNum 2)]])\<close>
  by (simp add: eval_defs lex_number_def lex_unsigned_def lex_int_def lex_frac_def lex_exp_def
      digits_val_def)

section \<open>The order of the parser stages\<close>

text \<open>
  C6. The two concatenated object literals of the specification do not parse directly;
  the delimiter repair puts a comma between the adjacent braces and array brackets
  around the text, and the repaired text parses to exactly two candidate questions.
\<close>

theorem C6_concatenated_objects_repaired:
  "normalizer concatenated_objects = concatenated_objects
   \<and> JSON_parse concatenated_objects = None
   \<and> js ''['' @ repair concatenated_objects @ js '']'' = repaired_objects
   \<and> parse_generated (normalizer concatenated_objects)
       = ([DirectParse, DelimiterRepair], Some (JArr [question_A, question_B]))
   \<and> parse_candidates (normalizer concatenated_objects) = Some [question_A, question_B]
   \<and> map_option length (parse_candidates (normalizer concatenated_objects)) = Some 2"
  by (simp add: concatenated_normal concatenated_direct concatenated_repair [simplified]
      repaired_parse parse_generated_def parse_candidates_def del: repair.simps)

text \<open>
  C5. A text that parses directly yields the direct result, and the record of stages
  holds the direct parse alone: neither the delimiter repair nor the object extraction
  is entered. In general the stages entered are an initial part of direct parse,
  delimiter repair, object extraction, each at most once, and the first stage that
  succeeds gives the result.
\<close>

theorem C5_first_success_wins:
  "(JSON_parse s = Some v \<longrightarrow> parse_generated s = ([DirectParse], Some v))
   \<and> (JSON_parse s = None \<and> JSON_parse (js ''['' @ repair s @ js '']'') = Some v \<longrightarrow>
        parse_generated s = ([DirectParse, DelimiterRepair], Some v))
   \<and> (JSON_parse s = None \<and> JSON_parse (js ''['' @ repair s @ js '']'') = None \<longrightarrow>
        parse_generated s =
          ([DirectParse, DelimiterRepair, ObjectExtraction],
           if extract_objects s = [] then None
           else JSON_parse (js ''['' @ join (js '','') (extract_objects s) @ js '']'')))
   \<and> fst (parse_generated s) \<in>
         {[DirectParse], [DirectParse, DelimiterRepair],
          [DirectParse, DelimiterRepair, ObjectExtraction]}"
  by (auto simp: parse_generated_def Let_def split: option.splits)

text \<open>
  Witness of C5: a text on which the delimiter repair, had it been entered, would have
  given another value than the direct parse; and the concatenated objects, which the
  delimiter repair recovers.
\<close>

theorem C5_first_success_wins_witness:
  "JSON_parse braces_in_string = Some (JArr [JObj [(js ''a'', JStr (js ''} {''))]])
   \<and> parse_generated braces_in_string
       = ([DirectParse], Some (JArr [JObj [(js ''a'', JStr (js ''} {''))]]))
   \<and> JSON_parse (js ''['' @ repair braces_in_string @ js '']'')
       = Some (JArr [JArr [JObj [(js ''a'', JStr (js ''},{''))]]])
   \<and> JSON_parse concatenated_objects = None
   \<and> parse_generated concatenated_objects
       = ([DirectParse, DelimiterRepair], Some (JArr [question_A, question_B]))"
  using C5_first_success_wins [of braces_in_string "JArr [JObj [(js ''a'', JStr (js ''} {''))]]"]
    C5_first_success_wins [of concatenated_objects "JArr [question_A, question_B]"]
    braces_direct braces_repaired concatenated_direct repaired_parse
    concatenated_repair [simplified]
  by (simp del: repair.simps)

section \<open>What a successful parse holds\<close>

text \<open>
  \<open>open_array\<close> is an invariant of the automaton while it reads the members of an
  outermost array, and the array that comes out is then not empty.
\<close>

lemma inner_push: "inner_frames st \<Longrightarrow> open_array (f # st)"
  by (auto simp: open_array_def inner_frames_def Suc_le_eq)

lemma complete_open:
  assumes "inner_frames st" "complete_value v st = Some (q', st')"
  shows "open_array st'"
  using assms
  by (cases "(v, st)" rule: complete_value.cases)
    (auto simp: open_array_def inner_frames_def Suc_le_eq split: if_splits frame.splits)

lemma begin_open:
  assumes "inner_frames st" "begin_value t st = Some (q', st')"
  shows "open_array st'"
  using assms
  by (cases "(t, st)" rule: begin_value.cases) (auto intro: inner_push complete_open)

lemma close_array_open:
  assumes "open_array st" "close_array st = Some (q', st')"
  shows "open_array st' \<or> (st' = [] \<and> (\<exists>x xs. q' = Finished (JArr (x # xs))))"
proof (cases st rule: close_array.cases)
  case (1 acc rest)
  show ?thesis
  proof (cases "rest = []")
    case True
    with 1 assms show ?thesis
      by (cases "rev acc") (auto simp: open_array_def inner_frames_def)
  next
    case False
    with 1 assms have "inner_frames rest"
      by (auto simp: open_array_def inner_frames_def)
    with 1 assms show ?thesis
      by (auto intro: complete_open)
  qed
qed (use assms in auto)

lemma close_object_open:
  assumes "open_array st" "close_object st = Some (q', st')"
  shows "open_array st'"
proof (cases st rule: close_object.cases)
  case (1 kvs rest)
  with assms have "inner_frames rest"
    by (auto simp: open_array_def inner_frames_def split: if_splits)
  with 1 assms show ?thesis
    by (auto intro: complete_open)
qed (use assms in auto)

lemma read_key_open:
  assumes "open_array st" "read_key t st = Some (q', st')"
  shows "open_array st'"
  using assms
  by (cases "(t, st)" rule: read_key.cases)
    (auto simp: open_array_def inner_frames_def split: if_splits)

lemma next_member_open:
  assumes "open_array st" "next_member st = Some (q', st')"
  shows "open_array st'"
  using assms
  by (cases st rule: next_member.cases) auto

lemma step_open:
  assumes "open_array st" "step q st t = Some (q', st')"
  shows "open_array st' \<or> (st' = [] \<and> (\<exists>x xs. q' = Finished (JArr (x # xs))))"
proof -
  from assms(1) have inner: "inner_frames st"
    by (simp add: open_array_def)
  show ?thesis
  proof (cases q)
    case WantValue
    with assms inner show ?thesis by (auto intro: begin_open)
  next
    case WantValueOrClose
    with assms inner show ?thesis
      by (auto intro: begin_open dest: close_array_open split: if_splits)
  next
    case WantKeyOrClose
    with assms show ?thesis
      by (auto intro: close_object_open read_key_open split: if_splits)
  next
    case WantKey
    with assms show ?thesis by (auto intro: read_key_open)
  next
    case WantColon
    with assms show ?thesis by (auto split: if_splits)
  next
    case AfterValue
    with assms show ?thesis
      by (auto intro: next_member_open close_object_open dest: close_array_open split: if_splits)
  next
    case (Finished v)
    with assms show ?thesis by simp
  qed
qed

lemma run_finished: "run (Finished v) [] ts = Some w \<Longrightarrow> w = v"
  by (cases ts) auto

lemma run_open:
  assumes "open_array st" "run q st ts = Some v"
  shows "\<exists>x xs. v = JArr (x # xs)"
  using assms
proof (induction ts arbitrary: q st)
  case Nil
  then show ?case
    by (cases q; cases st) (auto simp: open_array_def inner_frames_def)
next
  case (Cons t ts)
  from Cons.prems(2) obtain q' st' where s: "step q st t = Some (q', st')"
    and r: "run q' st' ts = Some v"
    by (auto split: option.splits)
  from step_open [OF Cons.prems(1) s] show ?case
  proof
    assume "open_array st'"
    with r show ?thesis by (rule Cons.IH [rotated])
  next
    assume "st' = [] \<and> (\<exists>x xs. q' = Finished (JArr (x # xs)))"
    with r show ?thesis by (auto dest: run_finished)
  qed
qed

lemma extract_objects_brace:
  "m \<in> set (extract_objects s) \<Longrightarrow> \<exists>r. m = 123 # r"
  by (induction s rule: extract_objects.induct) (auto split: if_splits list.splits)

lemma join_head: "ms \<noteq> [] \<Longrightarrow> hd ms = c # r \<Longrightarrow> \<exists>r'. join sep ms = c # r'"
  by (induction sep ms rule: join.induct) auto

lemma parse_bracket_brace:
  assumes "JSON_parse (91 # 123 # s) = Some v"
  shows "\<exists>x xs. v = JArr (x # xs)"
proof -
  from assms obtain ts where "lex s = Some ts"
    and "run WantKeyOrClose [FObject [], FArray []] ts = Some v"
    by (auto simp: JSON_parse_def json_ws_def push_token_def split: option.splits)
  moreover have "open_array [FObject [], FArray []]"
    by (simp add: open_array_def inner_frames_def)
  ultimately show ?thesis
    by (auto dest: run_open)
qed

lemma extraction_nonempty:
  assumes "extract_objects s \<noteq> []"
    and "JSON_parse (js ''['' @ join (js '','') (extract_objects s) @ js '']'') = Some v"
  shows "\<exists>x xs. v = JArr (x # xs)"
proof -
  from assms(1) have "hd (extract_objects s) \<in> set (extract_objects s)"
    by simp
  then obtain r where "hd (extract_objects s) = 123 # r"
    by (auto dest: extract_objects_brace)
  with assms(1) obtain r' where "join (js '','') (extract_objects s) = 123 # r'"
    by (auto dest: join_head)
  with assms(2) show ?thesis
    by (auto simp: js_def dest: parse_bracket_brace)
qed

text \<open>
  C3 (as stated). The text \<open>[]\<close> parses directly, and the candidate sequence is empty;
  a text of one space is empty once normalized, does not parse directly, is repaired to
  \<open>[]\<close>, and the candidate sequence is empty again.
\<close>

theorem C3_empty_array_counterexample:
  "parse_generated (normalizer (js ''[]'')) = ([DirectParse], Some (JArr []))
   \<and> parse_candidates (normalizer (js ''[]'')) = Some []
   \<and> parse_generated (normalizer (js '' '')) = ([DirectParse, DelimiterRepair], Some (JArr []))
   \<and> parse_candidates (normalizer (js '' '')) = Some []"
  by (simp add: parse_generated_def parse_candidates_def normalizer_def strip_json_fence_def
      strip_fence_def trim_def eval_defs)

text \<open>
  C3 (amended). When the parser succeeds with the value \<open>v\<close>, the candidates are the
  elements of \<open>v\<close> if it is an array and \<open>v\<close> alone otherwise; the sequence is empty
  only if \<open>v\<close> is the empty array, and never when the object extraction gave the value.
\<close>

theorem C3_candidates_of_parsed_value:
  assumes "parse_generated s = (stages, Some v)"
  shows "parse_candidates s = Some (as_array v)
    \<and> (as_array v = [] \<longleftrightarrow> v = JArr [])
    \<and> (ObjectExtraction \<in> set stages \<longrightarrow> as_array v \<noteq> [])"
proof -
  have "as_array v = [] \<longleftrightarrow> v = JArr []"
    by (cases v) auto
  moreover have "as_array v \<noteq> []" if "ObjectExtraction \<in> set stages"
  proof -
    from that assms have "extract_objects s \<noteq> []"
      and "JSON_parse (js ''['' @ join (js '','') (extract_objects s) @ js '']'') = Some v"
      by (auto simp: parse_generated_def Let_def split: option.splits if_splits)
    then obtain x xs where "v = JArr (x # xs)"
      by (auto dest: extraction_nonempty)
    then show ?thesis by simp
  qed
  ultimately show ?thesis
    using assms by (simp add: parse_candidates_def)
qed

text \<open>Witness of C3: the objects in prose are recovered by the object extraction, and the
  candidates are the two of them.\<close>

theorem C3_candidates_of_parsed_value_witness:
  "parse_generated objects_in_prose
     = ([DirectParse, DelimiterRepair, ObjectExtraction],
        Some (JArr [JObj [(js ''a'', JNum 1)], JObj [(js ''b'', JNum 2)]]))
   \<and> parse_candidates objects_in_prose = Some [JObj [(js ''a'', JNum 1)], JObj [(js ''b'', JNum 2)]]
   \<and> [JObj [(js ''a'', JNum 1)], JObj [(js ''b'', JNum 2)]] \<noteq> []"
proof -
  have p: "parse_generated objects_in_prose
     = ([DirectParse, DelimiterRepair, ObjectExtraction],
        Some (JArr [JObj [(js ''a'', JNum 1)], JObj [(js ''b'', JNum 2)]]))"
    using prose_direct prose_repaired prose_extract prose_joined
    by (simp add: parse_generated_def del: repair.simps extract_objects.simps)
  from C3_candidates_of_parsed_value [OF p] p show ?thesis
    by simp
qed

section \<open>The normalizer and fenced blocks\<close>

lemma find_sub_Some: "find_sub p s = Some (a, b) \<Longrightarrow> s = a @ p @ b"
proof (induction s arbitrary: a b)
  case Nil
  then show ?case by (simp split: if_splits)
next
  case (Cons c cs)
  show ?case
  proof (cases "take (length p) (c # cs) = p")
    case True
    with Cons.prems have "a = []" "b = drop (length p) (c # cs)"
      by simp_all
    with True show ?thesis
      by (metis append_Nil append_take_drop_id)
  next
    case False
    with Cons.prems obtain a' where "find_sub p cs = Some (a', b)" "a = c # a'"
      by (auto split: option.splits)
    with Cons.IH show ?thesis by simp
  qed
qed

lemma find_sub_occurs:
  "s = a @ p @ b \<Longrightarrow> \<exists>a' b'. find_sub p s = Some (a', b') \<and> length a' \<le> length a"
proof (induction a arbitrary: s)
  case Nil
  show ?case
  proof (cases s)
    case Nil
    with Nil.prems show ?thesis by simp
  next
    case (Cons c cs)
    with Nil.prems have "take (length p) (c # cs) = p"
      by (metis append_Nil append_eq_conv_conj)
    with Cons show ?thesis by simp
  qed
next
  case (Cons x a)
  from Cons.IH [of "a @ p @ b"] obtain a' b'
    where "find_sub p (a @ p @ b) = Some (a', b')" "length a' \<le> length a"
    by auto
  with Cons.prems show ?case by auto
qed

lemma find_sub_None: "find_sub p (a @ p @ b) \<noteq> None"
  using find_sub_occurs [of "a @ p @ b" a p b] by auto

lemma append_eq_drop:
  assumes "xs @ ys = zs @ ws" "length xs \<le> length zs"
  shows "ys = drop (length xs) zs @ ws"
proof -
  have "ys = drop (length xs) (xs @ ys)" by simp
  also have "\<dots> = drop (length xs) (zs @ ws)" by (simp only: assms(1))
  also have "\<dots> = drop (length xs) zs @ ws" using assms(2) by simp
  finally show ?thesis .
qed

lemma fenced_occurs:
  assumes "s = a @ js ''```'' @ m @ js ''```'' @ b"
  shows "fenced s"
proof -
  let ?F = "js ''```''"
  from find_sub_occurs [OF assms] obtain a' b'
    where f: "find_sub ?F s = Some (a', b')" and le: "length a' \<le> length a"
    by auto
  from find_sub_Some [OF f] assms
  have eq: "(a' @ ?F) @ b' = (a @ ?F @ m) @ (?F @ b)"
    by simp
  have "length (a' @ ?F) \<le> length (a @ ?F @ m)"
    using le by simp
  with eq have "b' = drop (length (a' @ ?F)) (a @ ?F @ m) @ ?F @ b"
    by (rule append_eq_drop)
  then obtain us where "b' = us @ ?F @ b" ..
  then have "find_sub ?F b' \<noteq> None"
    by (simp add: find_sub_None)
  with f show ?thesis
    by (simp add: fenced_def)
qed

lemma dropWhile_fixed: "xs = [] \<or> \<not> P (hd xs) \<Longrightarrow> dropWhile P xs = xs"
  by (cases xs) auto

lemma trim_clean: "trim s = [] \<or> \<not> is_space (hd (trim s))"
proof (cases "trim s = []")
  case False
  let ?t = "dropWhile is_space s"
  let ?u = "dropWhile is_space (rev ?t)"
  from False have u: "?u \<noteq> []"
    by (simp add: trim_def)
  have t: "?t \<noteq> []"
  proof
    assume "?t = []"
    then have "?u = []" by (simp only: rev.simps dropWhile.simps)
    with u show False by (simp only: not_True_eq_False simp_thms)
  qed
  have "rev ?t = takeWhile is_space (rev ?t) @ ?u" by simp
  with u have "last (rev ?t) = last ?u"
    by (metis last_appendR)
  with t have "last ?u = hd ?t"
    by (simp add: last_rev)
  moreover from t have "\<not> is_space (hd ?t)"
    by (rule hd_dropWhile)
  ultimately show ?thesis
    using u by (simp add: trim_def hd_rev)
qed simp

lemma trim_idem: "trim (trim s) = trim s"
proof -
  have "dropWhile is_space (trim s) = trim s"
    using trim_clean by (rule dropWhile_fixed)
  then show ?thesis
    by (simp add: trim_def dropWhile_idem)
qed

lemma trim_length: "length (trim s) \<le> length s"
proof -
  have "length (trim s) \<le> length (dropWhile is_space s)"
    unfolding trim_def using length_dropWhile_le [of is_space "rev (dropWhile is_space s)"]
    by simp
  also have "\<dots> \<le> length s" by (rule length_dropWhile_le)
  finally show ?thesis .
qed

lemma strip_fence_length: "length (strip_fence s) \<le> length s"
  by (auto simp: strip_fence_def split: option.splits dest!: find_sub_Some)

lemma strip_fence_shorter:
  assumes "fenced s"
  shows "length (strip_fence s) < length s"
proof -
  from assms obtain before rest body after
    where f1: "find_sub (js ''```'') s = Some (before, rest)"
      and f2: "find_sub (js ''```'') rest = Some (body, after)"
    by (auto simp: fenced_def split: option.splits)
  from find_sub_Some [OF f1] find_sub_Some [OF f2]
  have "length s = length before + 3 + length body + 3 + length after"
    by (simp add: js_def)
  moreover from f1 f2 have "strip_fence s = before @ body @ after"
    by (simp add: strip_fence_def)
  ultimately show ?thesis by simp
qed

lemma strip_fence_unfenced: "\<not> fenced s \<Longrightarrow> strip_fence s = s"
  by (auto simp: strip_fence_def fenced_def split: option.splits)

lemma strip_json_fence_cases:
  "strip_json_fence s = s \<or> (fenced s \<and> length (strip_json_fence s) < length s)"
proof (cases "strip_json_fence s = s")
  case False
  then obtain before rest body after
    where f1: "find_sub (js ''```json'') s = Some (before, rest)"
      and f2: "find_sub (js ''```'') (dropWhile is_space rest) = Some (body, after)"
      and f3: "strip_json_fence s = before @ body @ after"
    by (auto simp: strip_json_fence_def split: option.splits)
  have rest: "rest = takeWhile is_space rest @ body @ js ''```'' @ after"
    using find_sub_Some [OF f2] by (metis takeWhile_dropWhile_id)
  have "s = before @ js ''```json'' @ rest"
    using f1 by (rule find_sub_Some)
  with rest have s: "s = before @ js ''```'' @ (js ''json'' @ takeWhile is_space rest @ body)
      @ js ''```'' @ after"
    by (simp add: js_def)
  then have "fenced s" by (rule fenced_occurs)
  moreover from arg_cong [OF s, of length] have "length (strip_json_fence s) < length s"
    by (simp add: f3 js_def)
  ultimately show ?thesis by simp
qed simp

text \<open>
  C7 (amended). Normalizing twice gives the same text as normalizing once exactly when
  the normalized text holds no further fenced block; where it holds one, the second
  application removes it and the text becomes shorter.
\<close>

theorem C7_normalizer_idempotent_iff:
  "normalizer (normalizer s) = normalizer s \<longleftrightarrow> \<not> fenced (normalizer s)"
proof
  assume idem: "normalizer (normalizer s) = normalizer s"
  show "\<not> fenced (normalizer s)"
  proof
    let ?t = "normalizer s"
    assume f: "fenced ?t"
    have "length (strip_fence (strip_json_fence ?t)) < length ?t"
    proof (cases "strip_json_fence ?t = ?t")
      case True
      with f show ?thesis by (simp add: strip_fence_shorter)
    next
      case False
      with strip_json_fence_cases [of ?t] have "length (strip_json_fence ?t) < length ?t"
        by simp
      with strip_fence_length [of "strip_json_fence ?t"] show ?thesis by simp
    qed
    with trim_length [of "strip_fence (strip_json_fence ?t)"]
    have "length (normalizer ?t) < length ?t"
      by (simp add: normalizer_def [of ?t])
    with idem show False by simp
  qed
next
  let ?t = "normalizer s"
  assume nf: "\<not> fenced ?t"
  with strip_json_fence_cases [of ?t] have "strip_json_fence ?t = ?t" by simp
  with nf have "normalizer ?t = trim ?t"
    by (simp add: normalizer_def [of ?t] strip_fence_unfenced)
  also have "\<dots> = ?t"
    by (simp add: normalizer_def trim_idem)
  finally show "normalizer ?t = ?t" .
qed

text \<open>
  C7 (as stated). With two fenced blocks in the text, the first application removes the
  fences of the first block and the second application those of the second.
\<close>

theorem C7_two_fences_counterexample:
  "normalizer two_fences = js ''a ```b```''
   \<and> normalizer (normalizer two_fences) = js ''a b''
   \<and> normalizer (normalizer two_fences) \<noteq> normalizer two_fences"
  by (simp add: two_fences_def normalizer_def strip_json_fence_def strip_fence_def trim_def
      eval_defs)

lemma fenced_array_normal: \<open>normalizer fenced_array = js ''[{"a":1}]''\<close>
  by (simp add: fenced_array_def normalizer_def strip_json_fence_def strip_fence_def trim_def
      eval_defs)

text \<open>Witness of C7: both sides of the equivalence hold on the fenced array, and both fail on
  the text with two fenced blocks.\<close>

theorem C7_normalizer_idempotent_iff_witness:
  \<open>\<not> fenced (normalizer fenced_array)
   \<and> normalizer (normalizer fenced_array) = normalizer fenced_array
   \<and> fenced (normalizer two_fences)
   \<and> normalizer (normalizer two_fences) \<noteq> normalizer two_fences\<close>
proof -
  have a: "\<not> fenced (normalizer fenced_array)"
    by (simp add: fenced_array_normal fenced_def eval_defs)
  have b: "fenced (normalizer two_fences)"
    by (simp add: two_fences_def normalizer_def strip_json_fence_def strip_fence_def trim_def
        fenced_def eval_defs)
  from a b C7_normalizer_idempotent_iff [of fenced_array] C7_normalizer_idempotent_iff [of two_fences]
  show ?thesis by simp
qed

section \<open>Question documents\<close>

lemma question_docs_from_nth:
  "question_docs_from quizId cfgs i qs = Some ds \<Longrightarrow>
     length ds = length qs
     \<and> (\<forall>k < length qs. question_doc_of quizId cfgs (qs ! k) (i + k) = Some (ds ! k))"
proof (induction qs arbitrary: i ds)
  case Nil
  then show ?case by simp
next
  case (Cons q qs)
  from Cons.prems obtain d ds' where d: "question_doc_of quizId cfgs q i = Some d"
    and ds': "question_docs_from quizId cfgs (Suc i) qs = Some ds'" and ds: "ds = d # ds'"
    by (auto split: option.splits)
  from Cons.IH [OF ds'] have len: "length ds' = length qs"
    and nth: "\<And>k. k < length qs \<Longrightarrow> question_doc_of quizId cfgs (qs ! k) (Suc i + k) = Some (ds' ! k)"
    by simp_all
  show ?case
  proof (intro conjI allI impI)
    show "length ds = length (q # qs)" using len ds by simp
  next
    fix k assume "k < length (q # qs)"
    then show "question_doc_of quizId cfgs ((q # qs) ! k) (i + k) = Some (ds ! k)"
      using d nth [of "k - 1"] ds by (cases k) simp_all
  qed
qed

lemma question_docs_nth:
  assumes "question_docs quizId cfgs qs = Some ds"
  shows "k < length qs \<Longrightarrow> question_doc_of quizId cfgs (qs ! k) k = Some (ds ! k)"
    and "length ds = length qs"
  using question_docs_from_nth [OF assms [unfolded question_docs_def]] by simp_all

lemma question_doc_of_Some:
  assumes "question_doc_of quizId cfgs q i = Some d"
  shows "\<exists>config. index cfgs i = Some config
      \<and> points d = js_or (opt_member config (js ''points'')) (JNum 10)"
    and "options d = final_options (get_prop q (js ''options''))"
    and "correct_answer d = final_answer (get_prop q (js ''correct_answer'')) (options d)"
  using assms
  by (auto simp: question_doc_of_def config_points_def get_member_def
      split: option.splits if_splits)

lemma final_options_length: "4 \<le> length (final_options v)"
  by (cases v) (simp_all add: default_options_def)

lemma first_option_member: "opts \<noteq> [] \<Longrightarrow> first_option opts \<in> set opts"
  by (cases opts) simp_all

lemma final_answer_member: "opts \<noteq> [] \<Longrightarrow> final_answer a opts \<in> set opts"
  by (simp add: final_answer_def array_includes_def first_option_member)

text \<open>
  C1 (amended). In every question document built from a candidate, the correct answer is
  one of the document's options. It is the candidate's answer when that answer is truthy
  and is found among the final options, and the first option otherwise.
\<close>

theorem C1_correct_answer_among_options:
  assumes "question_docs quizId cfgs qs = Some ds" and "k < length qs"
  shows "correct_answer (ds ! k) \<in> set (options (ds ! k))
    \<and> options (ds ! k) = final_options (get_prop (qs ! k) (js ''options''))
    \<and> correct_answer (ds ! k) =
        (if truthy (get_prop (qs ! k) (js ''correct_answer''))
            \<and> array_includes (options (ds ! k)) (get_prop (qs ! k) (js ''correct_answer''))
         then get_prop (qs ! k) (js ''correct_answer'')
         else first_option (options (ds ! k)))"
proof -
  note d = question_doc_of_Some [OF question_docs_nth(1) [OF assms]]
  have "options (ds ! k) \<noteq> []"
    using final_options_length [of "get_prop (qs ! k) (js ''options'')"] d(2) by auto
  then have "final_answer (get_prop (qs ! k) (js ''correct_answer'')) (options (ds ! k))
      \<in> set (options (ds ! k))"
    by (rule final_answer_member)
  with d(2,3) show ?thesis
    by (simp add: final_answer_def)
qed

lemmas doc_defs = question_docs_def question_doc_of_def config_points_def get_member_def
  opt_member_def js_or_def final_answer_def array_includes_def default_options_def

text \<open>
  C1 (as stated). The answer of the candidate is the empty string, which is the second of
  its four options; the document does not keep it, but takes the first option.
\<close>

theorem C1_empty_answer_counterexample:
  "get_prop empty_answer (js ''correct_answer'') = JStr []
   \<and> map_option (map options) (question_docs 1 five_points [empty_answer])
       = Some [[JStr (js ''a''), JStr [], JStr (js ''c''), JStr (js ''d'')]]
   \<and> JStr [] \<in> set [JStr (js ''a''), JStr [], JStr (js ''c''), JStr (js ''d'')]
   \<and> map_option (map correct_answer) (question_docs 1 five_points [empty_answer])
       = Some [JStr (js ''a'')]
   \<and> JStr (js ''a'') \<noteq> JStr []"
  by (simp add: empty_answer_def five_points_def doc_defs js_def)

lemma sample_docs: "question_docs 1 five_points [question_A, outside_answer] = Some sample_docs"
  by (simp add: question_A_def outside_answer_def five_points_def sample_docs_def doc_defs js_def)

text \<open>Witness of C1: the second sample candidate names an answer outside its options, and its
  document takes the first option.\<close>

theorem C1_correct_answer_among_options_witness:
  "question_docs 1 five_points [question_A, outside_answer] = Some sample_docs
   \<and> get_prop outside_answer (js ''correct_answer'') = JStr (js ''z'')
   \<and> correct_answer (sample_docs ! 1) \<in> set (options (sample_docs ! 1))"
proof -
  have "(1::nat) < length [question_A, outside_answer]" by simp
  from C1_correct_answer_among_options [OF sample_docs this]
  have "correct_answer (sample_docs ! 1) \<in> set (options (sample_docs ! 1))"
    by (rule conjunct1)
  moreover have "get_prop outside_answer (js ''correct_answer'') = JStr (js ''z'')"
    by (simp add: outside_answer_def js_def)
  ultimately show ?thesis
    using sample_docs by simp
qed

text \<open>
  C2 (amended). The points of the document at position \<open>k\<close> are the \<open>points\<close> of the
  configuration at position \<open>k\<close> when that value is truthy (for a number: not zero), and
  10 otherwise, also when there is no configuration at that position. They are a positive
  integer whenever the configured value is a positive integer or is falsy.
\<close>

theorem C2_points_from_config:
  assumes "question_docs quizId cfgs qs = Some ds" and "k < length qs"
  shows "\<exists>config. index cfgs k = Some config
    \<and> points (ds ! k) =
        (if truthy (opt_member config (js ''points'')) then opt_member config (js ''points'')
         else JNum 10)
    \<and> ((\<exists>n. opt_member config (js ''points'') = JNum n \<and> 0 < n \<and> n \<in> \<int>)
          \<or> \<not> truthy (opt_member config (js ''points''))
        \<longrightarrow> (\<exists>n. points (ds ! k) = JNum n \<and> 0 < n \<and> n \<in> \<int>))"
proof -
  from question_doc_of_Some(1) [OF question_docs_nth(1) [OF assms]]
  obtain config where c: "index cfgs k = Some config"
    and p: "points (ds ! k) = js_or (opt_member config (js ''points'')) (JNum 10)"
    by auto
  have "(10::rat) \<in> \<int>" by simp
  with c p show ?thesis
    by (auto simp: js_or_def)
qed

text \<open>
  C2 (as stated). Configured points of -5 are present and not positive; they are taken
  all the same, and the document's points are not positive.
\<close>

theorem C2_negative_points_counterexample:
  "map_option (map points) (question_docs 1 negative_points [question_A]) = Some [JNum (- 5)]
   \<and> \<not> (0 :: rat) < - 5"
  by (simp add: question_A_def negative_points_def doc_defs js_def)

text \<open>Witness of C2: five points are configured for the first question and none for the
  second, which gets the fallback 10.\<close>

theorem C2_points_from_config_witness:
  "question_docs 1 five_points [question_A, outside_answer] = Some sample_docs
   \<and> index five_points 0 = Some (JObj [(js ''points'', JNum 5)])
   \<and> points (sample_docs ! 0) = JNum 5
   \<and> index five_points 1 = Some Undefined
   \<and> points (sample_docs ! 1) = JNum 10"
proof -
  have "(0::nat) < length [question_A, outside_answer]" "(1::nat) < length [question_A, outside_answer]"
    by simp_all
  from C2_points_from_config [OF sample_docs this(1)] C2_points_from_config [OF sample_docs this(2)]
  show ?thesis
    using sample_docs by (simp add: five_points_def opt_member_def js_def)
qed

section \<open>The handler on the whole\<close>

lemmas env_defs = sample_env_def sample_text_def sample_cast_def sample_response_def

lemma sample_read:
  "read_request (sample_env request_with_configs out) = Inr sample_fields"
  by (simp add: read_request_def env_defs request_with_configs_def sample_fields_def js_def)

lemma sample_prompt:
  "\<exists>p. prompt_of (sample_env b out) sample_fields = Some p"
  by (simp add: prompt_of_def env_defs sample_fields_def)

lemma sample_auth: "authenticate (sample_env b out) = Inr (JStr (js ''u1''))"
  by (simp add: authenticate_def env_defs get_member_def js_def)

lemma sample_generate: "out \<noteq> [] \<Longrightarrow> generate (sample_env b out) p = Inr out"
  by (simp add: generate_def response_content_def env_defs get_member_def opt_member_def js_def)

lemma concatenated_candidates:
  "parse_candidates (normalizer concatenated_objects) = Some [question_A, question_B]"
  by (simp add: concatenated_normal concatenated_direct concatenated_repair [simplified]
      repaired_parse parse_generated_def parse_candidates_def del: repair.simps)

section \<open>What the handler leaves in the store\<close>

lemma finalize_store:
  assumes "finalize e newQuiz questionDocs st = (answer, st')"
  shows "(sessions st' = sessions st \<or> sessions st' = sessions st @ [new_session e newQuiz])
    \<and> (quizzes st' = quizzes st
        \<or> (\<exists>total. quizzes st' = replace_quiz (newQuiz\<lparr>total_points := total\<rparr>) (quizzes st)))
    \<and> (sessions st' \<noteq> sessions st \<longrightarrow>
          (\<exists>total. quizzes st' = replace_quiz (newQuiz\<lparr>total_points := total\<rparr>) (quizzes st)))
    \<and> (answer = internal_error \<or> fst answer = 201)"
  using assms
  by (auto simp: finalize_def split: if_splits option.splits)

lemma persist_store:
  assumes "persist e r userId filteredQuestions st = (answer, st')"
  shows "(st' = st \<and> answer = internal_error)
    \<or> (\<exists>newQuiz. new_quiz e r userId = Some newQuiz
          \<and> (sessions st' = sessions st \<or> sessions st' = sessions st @ [new_session e newQuiz])
          \<and> (quizzes st' = quizzes st @ [newQuiz]
              \<or> (\<exists>total. quizzes st' =
                    replace_quiz (newQuiz\<lparr>total_points := total\<rparr>) (quizzes st @ [newQuiz])))
          \<and> (sessions st' \<noteq> sessions st \<longrightarrow>
                (\<exists>total. quizzes st' =
                    replace_quiz (newQuiz\<lparr>total_points := total\<rparr>) (quizzes st @ [newQuiz])))
          \<and> (answer = internal_error \<or> fst answer = 201))"
proof (cases "new_quiz e r userId")
  case None
  with assms show ?thesis by (simp add: persist_def)
next
  case (Some newQuiz)
  show ?thesis
  proof (cases "store_accepts e (SaveQuiz newQuiz)")
    case False
    with Some assms show ?thesis by (simp add: persist_def)
  next
    case True
    show ?thesis
    proof (cases "question_docs (quiz_oid newQuiz) (questionConfigs r) filteredQuestions")
      case None
      with Some True assms show ?thesis by (auto simp: persist_def)
    next
      case (Some questionDocs)
      with \<open>new_quiz e r userId = Some newQuiz\<close> True assms
      have "finalize e newQuiz questionDocs (st\<lparr>quizzes := quizzes st @ [newQuiz]\<rparr>) = (answer, st')"
        by (simp add: persist_def)
      from finalize_store [OF this] \<open>new_quiz e r userId = Some newQuiz\<close>
      show ?thesis by auto
    qed
  qed
qed

lemma POST_cases:
  assumes "POST e st = (answer, st')"
  shows "(st' = st \<and> fst answer \<noteq> 201
          \<and> (fst answer = 400 \<longleftrightarrow> read_request e = Inl (400, ErrorBody ''missing required fields'')))
    \<or> (\<exists>r userId filteredQuestions. read_request e = Inr r
          \<and> persist e r userId filteredQuestions st = (answer, st'))"
proof (cases "read_request e")
  case (Inl a)
  with assms have "st' = st" "answer = a" by (simp_all add: POST_def)
  moreover from Inl have "a = internal_error \<or> a = (400, ErrorBody ''missing required fields'')"
    by (auto simp: read_request_def split: option.splits if_splits)
  ultimately show ?thesis using Inl by (auto simp: internal_error_def)
next
  case (Inr r)
  show ?thesis
  proof (cases "prompt_of e r")
    case None
    with Inr assms show ?thesis by (auto simp: POST_def internal_error_def)
  next
    case (Some prompt)
    show ?thesis
    proof (cases "authenticate e")
      case (Inl a)
      then have "fst a = 401 \<or> a = internal_error"
        by (auto simp: authenticate_def split: option.splits if_splits)
      with Inl Inr Some assms show ?thesis by (auto simp: POST_def internal_error_def)
    next
      case userId: (Inr userId)
      show ?thesis
      proof (cases "generate e prompt")
        case (Inl a)
        then have "fst a = 500"
          by (auto simp: generate_def internal_error_def split: option.splits if_splits jsval.splits)
        with Inl Inr Some userId assms show ?thesis by (auto simp: POST_def)
      next
        case out: (Inr generatedOutput)
        show ?thesis
        proof (cases "select_questions generatedOutput")
          case (Inl a)
          then have "fst a = 500"
            by (auto simp: select_questions_def internal_error_def split: option.splits if_splits)
          with Inl Inr Some userId out assms show ?thesis by (auto simp: POST_def)
        next
          case fq: (Inr filteredQuestions)
          with Inr Some userId out assms show ?thesis by (auto simp: POST_def)
        qed
      qed
    qed
  qed
qed

lemma replace_quiz_set:
  "q \<in> set (replace_quiz d ds) \<Longrightarrow> q = d \<or> q \<in> set ds"
  by (auto simp: replace_quiz_def split: if_splits)

lemma replace_quiz_last: "d \<in> set (replace_quiz d (ds @ [d\<lparr>total_points := t\<rparr>]))"
  by (simp add: replace_quiz_def)

lemma finalize_questions:
  assumes "finalize e newQuiz questionDocs st = (answer, st')"
  shows "questions st' = questions st \<or> questions st' = questions st @ questionDocs"
  using assms
  by (auto simp: finalize_def split: if_splits option.splits)

lemma persist_questions:
  assumes "persist e r userId filteredQuestions st = (answer, st')"
  shows "questions st' = questions st
    \<or> (\<exists>quizId questionDocs.
          question_docs quizId (questionConfigs r) filteredQuestions = Some questionDocs
          \<and> questions st' = questions st @ questionDocs)"
proof (cases "new_quiz e r userId")
  case None
  with assms show ?thesis by (simp add: persist_def)
next
  case (Some newQuiz)
  show ?thesis
  proof (cases "question_docs (quiz_oid newQuiz) (questionConfigs r) filteredQuestions")
    case None
    with Some assms show ?thesis by (auto simp: persist_def split: if_splits)
  next
    case docs: (Some questionDocs)
    show ?thesis
    proof (cases "store_accepts e (SaveQuiz newQuiz)")
      case False
      with Some assms show ?thesis by (simp add: persist_def)
    next
      case True
      with Some docs assms
      have "finalize e newQuiz questionDocs (st\<lparr>quizzes := quizzes st @ [newQuiz]\<rparr>) = (answer, st')"
        by (simp add: persist_def)
      from finalize_questions [OF this] docs show ?thesis by auto
    qed
  qed
qed

text \<open>
  Every question that a run of the handler adds to the store is a multiple-choice question
  with at least four options, one of which is its correct answer.
\<close>

lemma POST_questions:
  assumes "POST e st = (answer, st')" and "d \<in> set (questions st')" and "d \<notin> set (questions st)"
  shows "question_type d = ''MCQ'' \<and> 4 \<le> length (options d) \<and> correct_answer d \<in> set (options d)"
proof -
  from assms(2,3) have "st' \<noteq> st" by auto
  with POST_cases [OF assms(1)] obtain r userId filteredQuestions
    where "persist e r userId filteredQuestions st = (answer, st')"
    by auto
  from persist_questions [OF this] assms(2,3) obtain quizId questionDocs
    where docs: "question_docs quizId (questionConfigs r) filteredQuestions = Some questionDocs"
      and d: "d \<in> set questionDocs"
    by auto
  from d obtain k where k: "k < length questionDocs" "d = questionDocs ! k"
    by (auto simp: in_set_conv_nth)
  with question_docs_nth(2) [OF docs] have "k < length filteredQuestions"
    by simp
  from question_docs_nth(1) [OF docs this] k
  have doc: "question_doc_of quizId (questionConfigs r) (filteredQuestions ! k) k = Some d"
    by simp
  note f = question_doc_of_Some(2,3) [OF doc]
  have len: "4 \<le> length (options d)"
    using final_options_length [of "get_prop (filteredQuestions ! k) (js ''options'')"] f(1)
    by simp
  then have "options d \<noteq> []" by auto
  then have "final_answer (get_prop (filteredQuestions ! k) (js ''correct_answer'')) (options d)
      \<in> set (options d)"
    by (rule final_answer_member)
  moreover from doc have "question_type d = ''MCQ''"
    by (auto simp: question_doc_of_def split: option.splits)
  ultimately show ?thesis
    using len f(2) by simp
qed

text \<open>
  C8. Every session that a run of the handler adds to the store is active, starts at the
  time of the clock, belongs to a quiz of the store, and ends exactly that quiz's duration
  in minutes times 60000 milliseconds after it starts.
\<close>

theorem C8_session_window:
  assumes "POST e st = (answer, st')" and "s \<in> set (sessions st')" and "s \<notin> set (sessions st)"
  shows "is_active s \<and> start_time s = now e
    \<and> (\<exists>q \<in> set (quizzes st'). quiz_oid q = session_quiz_id s
          \<and> end_time s = start_time s + duration q * 60000)"
proof -
  from assms(2,3) have "sessions st' \<noteq> sessions st" by auto
  with POST_cases [OF assms(1)] obtain r userId filteredQuestions
    where "persist e r userId filteredQuestions st = (answer, st')"
    by auto
  from persist_store [OF this] \<open>sessions st' \<noteq> sessions st\<close>
  obtain newQuiz total where s': "sessions st' = sessions st @ [new_session e newQuiz]"
    and q: "quizzes st' = replace_quiz (newQuiz\<lparr>total_points := total\<rparr>) (quizzes st @ [newQuiz])"
    by auto
  from s' assms(2,3) have s: "s = new_session e newQuiz" by simp
  have "newQuiz\<lparr>total_points := total\<rparr> \<in> set (quizzes st')"
    using replace_quiz_last [of "newQuiz\<lparr>total_points := total\<rparr>" "quizzes st" "total_points newQuiz"]
    by (simp add: q)
  then show ?thesis
    by (auto simp: s new_session_def intro!: bexI [of _ "newQuiz\<lparr>total_points := total\<rparr>"])
qed

lemma sample_select:
  "select_questions concatenated_objects = Inr [question_A, question_B]"
proof -
  have "parse_candidates (normalizer concatenated_objects) = Some [question_A, question_B]"
    using concatenated_candidates by simp
  then show ?thesis
    by (simp add: select_questions_def question_A_def question_B_def has_options_def
        get_member_def js_def)
qed

lemma sample_new_quiz:
  "new_quiz (sample_env b out) sample_fields (JStr (js ''u1'')) = Some sample_quiz"
  by (simp add: new_quiz_def env_defs sample_fields_def sample_quiz_def js_or_def js_def)

lemma sample_question_docs:
  "question_docs (quiz_oid sample_quiz) (questionConfigs sample_fields) [question_A, question_B]
     = Some sample_questions"
  by (simp add: question_A_def question_B_def sample_questions_def sample_quiz_def
      sample_fields_def doc_defs js_def)

lemma sample_finalize:
  "finalize (sample_env b out) sample_quiz sample_questions
     (empty_store\<lparr>quizzes := quizzes empty_store @ [sample_quiz]\<rparr>)
     = ((201, Created 1 2 (JStr (js ''ABC123''))), sample_result)"
  by (simp add: finalize_def env_defs sample_questions_def sample_quiz_def sample_result_def
      sample_session_def empty_store_def new_session_def replace_quiz_def)

lemma sample_persist:
  "persist (sample_env b out) sample_fields (JStr (js ''u1'')) [question_A, question_B] empty_store
     = ((201, Created 1 2 (JStr (js ''ABC123''))), sample_result)"
proof -
  have "store_accepts (sample_env b out) (SaveQuiz sample_quiz)"
    by (simp add: sample_env_def)
  then show ?thesis
    using sample_finalize [of b out]
    by (simp add: persist_def sample_new_quiz sample_question_docs)
qed

lemma concatenated_nonempty: "concatenated_objects \<noteq> []"
  by (simp add: concatenated_objects_def js_def)

lemma sample_run:
  "POST (sample_env request_with_configs concatenated_objects) empty_store
     = ((201, Created 1 2 (JStr (js ''ABC123''))), sample_result)"
proof -
  obtain p where "prompt_of (sample_env request_with_configs concatenated_objects) sample_fields = Some p"
    using sample_prompt by blast
  then show ?thesis
    by (simp add: POST_def sample_read sample_auth sample_generate [OF concatenated_nonempty]
        sample_select sample_persist)
qed

text \<open>Witness of C8: the sample run creates one session, ten minutes long.\<close>

theorem C8_session_window_witness:
  "POST (sample_env request_with_configs concatenated_objects) empty_store
     = ((201, Created 1 2 (JStr (js ''ABC123''))), sample_result)
   \<and> sample_session \<in> set (sessions sample_result)
   \<and> sample_session \<notin> set (sessions empty_store)
   \<and> is_active sample_session
   \<and> start_time sample_session = 1000
   \<and> end_time sample_session = 1000 + 10 * 60000
   \<and> (\<exists>q. q \<in> set (quizzes sample_result) \<and> quiz_oid q = session_quiz_id sample_session
          \<and> end_time sample_session = start_time sample_session + duration q * 60000)"
proof -
  have a: "sample_session \<in> set (sessions sample_result)"
    by (simp add: sample_result_def)
  have b: "sample_session \<notin> set (sessions empty_store)"
    by (simp add: empty_store_def)
  from C8_session_window [OF sample_run a b] a b sample_run show ?thesis
    by (auto simp: sample_session_def)
qed

lemma read_request_Inr:
  assumes "read_request e = Inr r" and "request_json e = Some b"
  shows "\<not> nullish b" "truthy (get_prop b (js ''topic''))" "truthy (get_prop b (js ''numQuestions''))"
    "duration_field r = get_prop b (js ''duration'')"
    "questionConfigs r = get_prop b (js ''questionConfigs'')"
    "topic r = get_prop b (js ''topic'')"
  using assms by (auto simp: read_request_def split: if_splits)

lemma read_request_400:
  assumes "request_json e = Some b"
  shows "read_request e = Inl (400, ErrorBody ''missing required fields'')
    \<longleftrightarrow> \<not> nullish b \<and> (\<not> truthy (get_prop b (js ''topic'')) \<or> \<not> truthy (get_prop b (js ''numQuestions'')))"
  using assms by (auto simp: read_request_def internal_error_def)

lemma new_quiz_duration:
  assumes "new_quiz e r userId = Some newQuiz"
  shows "cast_duration e (js_or (duration_field r) (JNum 10)) = Some (duration newQuiz)"
    and "total_points newQuiz = JNum 0"
  using assms by (auto simp: new_quiz_def split: option.splits)

text \<open>
  C10. When the request has no \<open>duration\<close>, or \<open>null\<close>, or 0, and the schema stores the
  number 10 as 10: every quiz the run creates has the duration 10, every session it
  creates ends 10 minutes after its start, and the answer is the status 400 only for a
  missing \<open>topic\<close> or \<open>numQuestions\<close>, never on account of the duration.
\<close>

theorem C10_default_duration:
  assumes body: "request_json e = Some b"
    and absent: "get_prop b (js ''duration'') = Undefined \<or> get_prop b (js ''duration'') = Null
        \<or> get_prop b (js ''duration'') = JNum 0"
    and cast: "cast_duration e (JNum 10) = Some 10"
    and run: "POST e st = (answer, st')"
  shows "(\<forall>q \<in> set (quizzes st'). q \<notin> set (quizzes st) \<longrightarrow> duration q = 10)
    \<and> (\<forall>s \<in> set (sessions st'). s \<notin> set (sessions st) \<longrightarrow>
          end_time s = start_time s + 10 * 60000)
    \<and> (fst answer = 400 \<longleftrightarrow>
          \<not> nullish b \<and> (\<not> truthy (get_prop b (js ''topic''))
            \<or> \<not> truthy (get_prop b (js ''numQuestions''))))"
proof -
  from POST_cases [OF run] consider
    (early) "st' = st"
      "fst answer = 400 \<longleftrightarrow> read_request e = Inl (400, ErrorBody ''missing required fields'')"
    | (late) r userId filteredQuestions where "read_request e = Inr r"
      "persist e r userId filteredQuestions st = (answer, st')"
    by blast
  then show ?thesis
  proof cases
    case early
    then show ?thesis
      using read_request_400 [OF body] by simp
  next
    case late
    note fields = read_request_Inr [OF late(1) body]
    from absent fields(4) have ten: "js_or (duration_field r) (JNum 10) = JNum 10"
      by (auto simp: js_or_def)
    from persist_store [OF late(2)] consider
      (nothing) "st' = st" "answer = internal_error"
      | (quiz) newQuiz where "new_quiz e r userId = Some newQuiz"
        "sessions st' = sessions st \<or> sessions st' = sessions st @ [new_session e newQuiz]"
        "quizzes st' = quizzes st @ [newQuiz]
          \<or> (\<exists>total. quizzes st' = replace_quiz (newQuiz\<lparr>total_points := total\<rparr>) (quizzes st @ [newQuiz]))"
        "answer = internal_error \<or> fst answer = 201"
      by blast
    then show ?thesis
    proof cases
      case nothing
      with fields show ?thesis by (simp add: internal_error_def)
    next
      case quiz
      from new_quiz_duration(1) [OF quiz(1)] ten cast have d: "duration newQuiz = 10"
        by simp
      have "duration x = 10" if "x \<in> set (quizzes st')" "x \<notin> set (quizzes st)" for x
        using quiz(3) that d by (auto dest!: replace_quiz_set)
      moreover have "end_time x = start_time x + 10 * 60000"
        if "x \<in> set (sessions st')" "x \<notin> set (sessions st)" for x
        using quiz(2) that d by (auto simp: new_session_def)
      moreover from quiz(4) have "fst answer \<noteq> 400"
        by (auto simp: internal_error_def)
      ultimately show ?thesis
        using fields by blast
    qed
  qed
qed

text \<open>Witness of C10: the sample request has no duration; the run creates a quiz of duration 10
  and a session that ends 600000 milliseconds after its start.\<close>

theorem C10_default_duration_witness:
  "request_json (sample_env request_with_configs concatenated_objects) = Some request_with_configs
   \<and> get_prop request_with_configs (js ''duration'') = Undefined
   \<and> cast_duration (sample_env request_with_configs concatenated_objects) (JNum 10) = Some 10
   \<and> POST (sample_env request_with_configs concatenated_objects) empty_store
       = ((201, Created 1 2 (JStr (js ''ABC123''))), sample_result)
   \<and> quizzes sample_result = [sample_quiz\<lparr>total_points := JNum 15\<rparr>]
   \<and> duration (sample_quiz\<lparr>total_points := JNum 15\<rparr>) = 10
   \<and> sessions sample_result = [sample_session]
   \<and> end_time sample_session = start_time sample_session + 10 * 60000"
proof -
  have body: "request_json (sample_env request_with_configs concatenated_objects) = Some request_with_configs"
    by (simp add: sample_env_def)
  have absent: "get_prop request_with_configs (js ''duration'') = Undefined"
    by (simp add: request_with_configs_def js_def)
  have cast: "cast_duration (sample_env request_with_configs concatenated_objects) (JNum 10) = Some 10"
    by (simp add: env_defs)
  from C10_default_duration [OF body disjI1 [OF absent] cast sample_run]
  have "duration (sample_quiz\<lparr>total_points := JNum 15\<rparr>) = 10"
    and "end_time sample_session = start_time sample_session + 10 * 60000"
    by (simp_all add: sample_result_def empty_store_def)
  with body absent cast sample_run show ?thesis
    by (simp add: sample_result_def)
qed

lemma filter_questions_no_null:
  "\<forall>q \<in> set cs. \<not> nullish q \<Longrightarrow>
     filter_questions cs = Some (filter (\<lambda>q. at_least_four (get_prop q (js ''options''))) cs)"
  by (induction cs) (simp_all add: has_options_def get_member_def)

lemma question_docs_without_configs:
  "filteredQuestions \<noteq> [] \<Longrightarrow> question_docs quizId Undefined filteredQuestions = None"
  by (cases filteredQuestions)
    (simp_all add: question_docs_def question_doc_of_def config_points_def split: option.splits)

text \<open>
  With candidates none of which is \<open>null\<close>, the filter of lines 116-118 keeps those with at
  least four options; when none is kept the handler answers "failed to generate valid
  multiple choice questions".
\<close>

lemma select_questions_no_null:
  assumes "parse_candidates (normalizer generatedOutput) = Some cs"
    and "\<forall>q \<in> set cs. \<not> nullish q"
  shows "select_questions generatedOutput =
    (if filter (\<lambda>q. at_least_four (get_prop q (js ''options''))) cs = []
     then Inl (500, ErrorBody ''failed to generate valid multiple choice questions'')
     else Inr (filter (\<lambda>q. at_least_four (get_prop q (js ''options''))) cs))"
  using assms by (simp add: select_questions_def filter_questions_no_null)

lemma select_questions_unchanged:
  assumes "read_request e = Inr r" "prompt_of e r = Some prompt" "authenticate e = Inr userId"
    and "generate e prompt = Inr generatedOutput"
    and "select_questions generatedOutput = Inl answer"
  shows "POST e st = (answer, st)"
  using assms by (simp add: POST_def)

text \<open>
  C9 (amended). The request has \<open>topic\<close> and \<open>numQuestions\<close> and no \<open>questionConfigs\<close>, and
  the model returned a text whose candidates hold no \<open>null\<close> and at least one candidate
  with four options. Then the filter passes, and the answer is the internal server
  error. When the quiz document is built and the store accepts it, the construction of
  the question documents throws, and the store holds the new quiz with \<open>total_points\<close> 0
  and no question or session more than before; when no quiz document is built or the
  store refuses it, the store is left as it was.
\<close>

theorem C9_missing_question_configs:
  assumes body: "request_json e = Some b"
    and absent: "get_prop b (js ''questionConfigs'') = Undefined"
    and fields: "read_request e = Inr r"
    and upstream: "prompt_of e r = Some prompt" "authenticate e = Inr userId"
      "generate e prompt = Inr generatedOutput"
    and parsed: "parse_candidates (normalizer generatedOutput) = Some cs"
    and no_null: "\<forall>q \<in> set cs. \<not> nullish q"
    and valid: "\<exists>q \<in> set cs. at_least_four (get_prop q (js ''options''))"
  shows "truthy (get_prop b (js ''topic'')) \<and> truthy (get_prop b (js ''numQuestions''))
    \<and> fst (POST e st) = (500, ErrorBody ''internal server error'')
    \<and> select_questions generatedOutput
        = Inr (filter (\<lambda>q. at_least_four (get_prop q (js ''options''))) cs)
    \<and> (\<forall>newQuiz. new_quiz e r userId = Some newQuiz \<and> store_accepts e (SaveQuiz newQuiz) \<longrightarrow>
          question_docs (quiz_oid newQuiz) (questionConfigs r)
            (filter (\<lambda>q. at_least_four (get_prop q (js ''options''))) cs) = None
          \<and> snd (POST e st) = st\<lparr>quizzes := quizzes st @ [newQuiz]\<rparr>
          \<and> total_points newQuiz = JNum 0)
    \<and> ((\<forall>newQuiz. new_quiz e r userId = Some newQuiz \<longrightarrow> \<not> store_accepts e (SaveQuiz newQuiz)) \<longrightarrow>
          snd (POST e st) = st)"
proof -
  let ?fq = "filter (\<lambda>q. at_least_four (get_prop q (js ''options''))) cs"
  from valid have ne: "?fq \<noteq> []"
    by (auto simp: filter_empty_conv)
  with select_questions_no_null [OF parsed no_null]
  have sel: "select_questions generatedOutput = Inr ?fq" by simp
  from read_request_Inr(5) [OF fields body] absent have "questionConfigs r = Undefined"
    by simp
  with ne have docs: "question_docs quizId (questionConfigs r) ?fq = None" for quizId
    by (simp add: question_docs_without_configs)
  have post: "POST e st = persist e r userId ?fq st"
    using fields upstream sel by (simp add: POST_def)
  have "fst (POST e st) = (500, ErrorBody ''internal server error'')"
    by (simp add: post persist_def docs internal_error_def split: option.splits)
  moreover have "snd (POST e st) = st\<lparr>quizzes := quizzes st @ [newQuiz]\<rparr> \<and> total_points newQuiz = JNum 0"
    if "new_quiz e r userId = Some newQuiz" "store_accepts e (SaveQuiz newQuiz)" for newQuiz
    using that new_quiz_duration(2) [OF that(1)] by (simp add: post persist_def docs)
  moreover have "snd (POST e st) = st"
    if "\<forall>newQuiz. new_quiz e r userId = Some newQuiz \<longrightarrow> \<not> store_accepts e (SaveQuiz newQuiz)"
    using that by (simp add: post persist_def split: option.splits)
  ultimately show ?thesis
    using sel docs read_request_Inr(2,3) [OF fields body] by blast
qed

lemmas norm_defs = normalizer_def strip_json_fence_def strip_fence_def trim_def
  parse_generated_def parse_candidates_def

lemma question_then_null_candidates:
  "parse_candidates (normalizer question_then_null)
     = Some [JObj [(js ''options'', JArr [JStr (js ''a''), JStr (js ''b''), JStr (js ''c''), JStr (js ''d'')])], Null]"
  by (simp add: question_then_null_def norm_defs eval_defs)

lemma null_in_array_candidates: "parse_candidates (normalizer null_in_array) = Some [Null]"
  by (simp add: null_in_array_def norm_defs eval_defs)

lemma sample_read_without:
  "read_request (sample_env request_without_configs out)
     = Inr (sample_fields\<lparr>questionConfigs := Undefined\<rparr>)"
  by (simp add: read_request_def env_defs request_without_configs_def sample_fields_def js_def)

lemma sample_prompt_without:
  "\<exists>p. prompt_of (sample_env b out) (sample_fields\<lparr>questionConfigs := Undefined\<rparr>) = Some p"
  by (simp add: prompt_of_def env_defs sample_fields_def)

lemma without_store:
  "read_request (e\<lparr>store_accepts := f\<rparr>) = read_request e"
  "prompt_of (e\<lparr>store_accepts := f\<rparr>) r = prompt_of e r"
  "authenticate (e\<lparr>store_accepts := f\<rparr>) = authenticate e"
  "generate (e\<lparr>store_accepts := f\<rparr>) p = generate e p"
  "new_quiz (e\<lparr>store_accepts := f\<rparr>) r u = new_quiz e r u"
  by (simp_all add: read_request_def prompt_of_def authenticate_def generate_def new_quiz_def
      cong: option.case_cong if_cong)

text \<open>
  C9 (as stated). The request has no \<open>questionConfigs\<close> and the text of the model holds
  a candidate with four options, yet no quiz is persisted: once because the store refuses
  the quiz, once because a \<open>null\<close> behind the question makes the filter throw.
\<close>

theorem C9_quiz_not_persisted_counterexample:
  "get_prop request_without_configs (js ''questionConfigs'') = Undefined
   \<and> parse_candidates (normalizer concatenated_objects) = Some [question_A, question_B]
   \<and> at_least_four (get_prop question_A (js ''options''))
   \<and> POST ((sample_env request_without_configs concatenated_objects)\<lparr>store_accepts := \<lambda>w. False\<rparr>)
         empty_store = (internal_error, empty_store)
   \<and> parse_candidates (normalizer question_then_null)
       = Some [JObj [(js ''options'', JArr [JStr (js ''a''), JStr (js ''b''), JStr (js ''c''), JStr (js ''d'')])], Null]
   \<and> POST (sample_env request_without_configs question_then_null) empty_store
       = (internal_error, empty_store)
   \<and> quizzes empty_store = []"
proof -
  let ?r = "sample_fields\<lparr>questionConfigs := Undefined\<rparr>"
  obtain p where "prompt_of (sample_env request_without_configs concatenated_objects) ?r = Some p"
    using sample_prompt_without by blast
  then have refused: "POST ((sample_env request_without_configs concatenated_objects)\<lparr>store_accepts := \<lambda>w. False\<rparr>)
         empty_store = (internal_error, empty_store)"
    by (simp add: POST_def without_store sample_read_without sample_auth
        sample_generate [OF concatenated_nonempty] sample_select persist_def
        split: option.splits)
  have "select_questions question_then_null = Inl internal_error"
    by (simp add: select_questions_def question_then_null_candidates has_options_def
        get_member_def js_def)
  moreover have "question_then_null \<noteq> []"
    by (simp add: question_then_null_def js_def)
  moreover obtain p' where "prompt_of (sample_env request_without_configs question_then_null) ?r = Some p'"
    using sample_prompt_without by blast
  ultimately have "POST (sample_env request_without_configs question_then_null) empty_store
       = (internal_error, empty_store)"
    by (simp add: POST_def sample_read_without sample_auth sample_generate)
  with refused show ?thesis
    using question_then_null_candidates concatenated_candidates
    by (simp add: request_without_configs_def empty_store_def question_A_def js_def)
qed

text \<open>
  C4 (the code at the failing input). The text \<open>[null]\<close> parses to one candidate, which
  has no options; reading \<open>options\<close> of \<open>null\<close> throws inside the filter, and the handler
  answers with the internal server error instead of "failed to generate valid multiple
  choice questions". Nothing is created.
\<close>

theorem C4_null_candidate_internal_error:
  "parse_candidates (normalizer null_in_array) = Some [Null]
   \<and> filter_questions [Null] = None
   \<and> POST (sample_env request_with_configs null_in_array) empty_store
       = ((500, ErrorBody ''internal server error''), empty_store)
   \<and> ErrorBody ''internal server error''
       \<noteq> ErrorBody ''failed to generate valid multiple choice questions''"
proof -
  have "select_questions null_in_array = Inl internal_error"
    by (simp add: select_questions_def null_in_array_candidates has_options_def get_member_def)
  moreover have "null_in_array \<noteq> []"
    by (simp add: null_in_array_def js_def)
  moreover obtain p where "prompt_of (sample_env request_with_configs null_in_array)
      sample_fields = Some p"
    using sample_prompt by blast
  ultimately have "POST (sample_env request_with_configs null_in_array) empty_store
       = (internal_error, empty_store)"
    by (simp add: POST_def sample_read sample_auth sample_generate)
  then show ?thesis
    using null_in_array_candidates
    by (simp add: internal_error_def has_options_def get_member_def)
qed

text \<open>
  No candidate with four options: the store is left as it was, and the answer is "failed
  to generate valid multiple choice questions" unless a candidate is \<open>null\<close>, in which case
  the filter throws and the answer is the internal server error.
\<close>

lemma filter_questions_null:
  "filter_questions cs = None \<longleftrightarrow> (\<exists>q \<in> set cs. nullish q)"
  by (induction cs) (auto simp: has_options_def get_member_def split: option.splits)

lemma no_candidate_with_four_options:
  assumes "read_request e = Inr r" "prompt_of e r = Some prompt" "authenticate e = Inr userId"
    and "generate e prompt = Inr generatedOutput"
    and "parse_candidates (normalizer generatedOutput) = Some cs"
    and "\<forall>q \<in> set cs. \<not> at_least_four (get_prop q (js ''options''))"
  shows "POST e st =
    ((500, ErrorBody (if \<exists>q \<in> set cs. nullish q then ''internal server error''
                      else ''failed to generate valid multiple choice questions'')), st)"
proof (cases "\<exists>q \<in> set cs. nullish q")
  case True
  then have "filter_questions cs = None"
    by (simp add: filter_questions_null)
  with assms(5) have "select_questions generatedOutput = Inl internal_error"
    by (simp add: select_questions_def)
  with assms(1-4) have "POST e st = (internal_error, st)"
    by (rule select_questions_unchanged)
  with True show ?thesis by (simp add: internal_error_def)
next
  case False
  from assms(6) have "filter (\<lambda>q. at_least_four (get_prop q (js ''options''))) cs = []"
    by (simp add: filter_empty_conv)
  with select_questions_no_null [OF assms(5)] False
  have "select_questions generatedOutput
    = Inl (500, ErrorBody ''failed to generate valid multiple choice questions'')"
    by simp
  with assms(1-4) have "POST e st
    = ((500, ErrorBody ''failed to generate valid multiple choice questions''), st)"
    by (rule select_questions_unchanged)
  with False show ?thesis by simp
qed

text \<open>
  Witness of C9: the sample run without \<open>questionConfigs\<close> persists the quiz, and nothing
  else.
\<close>

theorem C9_missing_question_configs_witness:
  "POST (sample_env request_without_configs concatenated_objects) empty_store
     = ((500, ErrorBody ''internal server error''),
        empty_store\<lparr>quizzes := quizzes empty_store @ [sample_quiz]\<rparr>)
   \<and> total_points sample_quiz = JNum 0
   \<and> questions (empty_store\<lparr>quizzes := quizzes empty_store @ [sample_quiz]\<rparr>) = []
   \<and> sessions (empty_store\<lparr>quizzes := quizzes empty_store @ [sample_quiz]\<rparr>) = []"
proof -
  let ?e = "sample_env request_without_configs concatenated_objects"
  let ?r = "sample_fields\<lparr>questionConfigs := Undefined\<rparr>"
  obtain p where p: "prompt_of ?e ?r = Some p"
    using sample_prompt_without by blast
  have body: "request_json ?e = Some request_without_configs"
    by (simp add: sample_env_def)
  have absent: "get_prop request_without_configs (js ''questionConfigs'') = Undefined"
    by (simp add: request_without_configs_def js_def)
  have no_null: "\<forall>q \<in> set [question_A, question_B]. \<not> nullish q"
    by (simp add: question_A_def question_B_def)
  have valid: "\<exists>q \<in> set [question_A, question_B]. at_least_four (get_prop q (js ''options''))"
    by (simp add: question_A_def question_B_def js_def)
  have quiz: "new_quiz ?e ?r (JStr (js ''u1'')) = Some sample_quiz"
    by (simp add: new_quiz_def env_defs sample_fields_def sample_quiz_def js_or_def js_def)
  have accepts: "store_accepts ?e (SaveQuiz sample_quiz)"
    by (simp add: sample_env_def)
  from C9_missing_question_configs [OF body absent sample_read_without p sample_auth
      sample_generate [OF concatenated_nonempty] concatenated_candidates no_null valid,
      of empty_store] quiz accepts
  have "fst (POST ?e empty_store) = (500, ErrorBody ''internal server error'')"
    and "snd (POST ?e empty_store) = empty_store\<lparr>quizzes := quizzes empty_store @ [sample_quiz]\<rparr>"
    and "total_points sample_quiz = JNum 0"
    by blast+
  then show ?thesis
    by (simp add: prod_eq_iff empty_store_def)
qed

end
